theory Spec2Isabelle
  imports Complex_Main "HOL-Library.Sublist"
begin

section \<open>Numbers\<close>

text \<open>
  The scoring engine (v3, exhaust-volume model) computes with JavaScript numbers.
  They are modelled as mathematical reals: \<open>Math.sqrt\<close> is \<^const>\<open>sqrt\<close>,
  \<open>Math.cos\<close> is \<^const>\<open>cos\<close>, \<open>Math.PI\<close> is \<^const>\<open>pi\<close>. The value
  \<open>Infinity\<close>, which the source uses as the start of a running minimum, is \<open>None\<close>
  of a \<open>real option\<close>. Rounding error of IEEE doubles and \<open>NaN\<close> are outside the model.
\<close>

definition Math_round :: "real \<Rightarrow> real" where
  \<comment> \<open>\<open>Math.round\<close>: nearest integer, a tie going up.\<close>
  "Math_round x = of_int \<lfloor>x + 1 / 2\<rfloor>"

definition round1 :: "real \<Rightarrow> real" where
  \<comment> \<open>the idiom \<open>Math.round(x * 10) / 10\<close>\<close>
  "round1 x = Math_round (x * 10) / 10"

section \<open>Data model\<close>

datatype ScoreBand = excellent | good | moderate | poor | hazardous

record GridCell =
  lat :: real
  lng :: real
  base :: real

record Bounds =
  lat_min :: real
  lat_max :: real
  lng_min :: real
  lng_max :: real

record StaticGrid =
  resolution_m :: real
  bounds :: Bounds
  cells :: "GridCell list"

record Pm25 =
  pm25_value :: real
  pm25_band :: ScoreBand
  regions :: "(string \<times> real) list"

record Wind =
  speed :: real
  direction :: string

record Rainfall =
  isRaining :: bool
  intensity :: string

record CurrentConditions =
  pm25 :: Pm25
  wind :: Wind
  temperature :: real
  rainfall :: Rainfall
  humidity :: real
  timestamp :: string

text \<open>The optional fields \<open>frc?\<close> and \<open>congestionRatio?\<close> are options.\<close>

record TrafficSpeedBand =
  linkId :: string
  roadName :: string
  speedBand :: real
  startLat :: real
  startLng :: real
  endLat :: real
  endLng :: real
  frc :: "real option"
  congestionRatio :: "real option"

type_synonym ring = "(real \<times> real) list"

record Zone =
  name :: string
  ring :: ring

section \<open>Score bands\<close>

definition BANDS :: "(real \<times> ScoreBand \<times> string \<times> string) list" where
  "BANDS =
    [(2, excellent, ''Excellent'', ''#4ecdc4''),
     (3.5, good, ''Good'', ''#a8e6a3''),
     (5, moderate, ''Fair'', ''#f7d794''),
     (7, poor, ''Poor'', ''#f8a978''),
     (10, hazardous, ''Avoid'', ''#fc5c65'')]"

definition getBand :: "real \<Rightarrow> real \<times> ScoreBand \<times> string \<times> string" where
  "getBand score =
    (case find (\<lambda>b. score \<le> fst b) BANDS of Some b \<Rightarrow> b | None \<Rightarrow> last BANDS)"

section \<open>Weather and time modifiers\<close>

definition pm25Modifier :: "real \<Rightarrow> real" where
  "pm25Modifier p =
    (if p \<le> 12 then 0 else if p \<le> 25 then 0.5 else if p \<le> 37 then 1.0
     else if p \<le> 55 then 2.0 else if p \<le> 75 then 3.0 else 4.0)"

definition windModifier :: "real \<Rightarrow> real" where
  "windModifier speedKmh =
    (if speedKmh \<ge> 20 then - 1.0 else if speedKmh \<ge> 12 then - 0.5
     else if speedKmh \<ge> 6 then 0 else if speedKmh \<ge> 2 then 0.3 else 0.5)"

definition timeModifier :: "real \<Rightarrow> real" where
  "timeModifier hour =
    (if hour \<ge> 7 \<and> hour \<le> 9 then 1.5
     else if hour \<ge> 17 \<and> hour \<le> 19 then 1.5
     else if hour \<ge> 6 \<and> hour \<le> 10 then 0.8
     else if hour \<ge> 16 \<and> hour \<le> 20 then 0.8
     else if hour \<ge> 0 \<and> hour \<le> 5 then - 0.5
     else 0.3)"

definition rainModifier :: "bool \<Rightarrow> string \<Rightarrow> real" where
  "rainModifier raining intens =
    (if \<not> raining then 0
     else if intens = ''Heavy'' then - 2.0
     else if intens = ''Moderate'' then - 1.5
     else if intens = ''Light'' then - 1.0
     else - 0.5)"

section \<open>Traffic exhaust model\<close>

definition DEG_TO_M :: real where
  "DEG_TO_M = 111320"

definition TRAFFIC_RADIUS :: real where
  "TRAFFIC_RADIUS = 400"

definition EXPRESSWAYS :: "string list" where
  "EXPRESSWAYS =
    [''AYE'', ''PIE'', ''CTE'', ''ECP'', ''KPE'', ''SLE'', ''TPE'', ''BKE'', ''MCE'', ''KJE'']"

text \<open>
  Road names are taken to be ASCII, so \<open>toUpperCase\<close> maps the letters a to z to A to Z
  and leaves every other character alone.
\<close>

definition upperChar :: "char \<Rightarrow> char" where
  "upperChar c =
    (let n = (of_char c :: nat) in if 97 \<le> n \<and> n \<le> 122 then char_of (n - 32) else c)"

definition toUpperCase :: "string \<Rightarrow> string" where
  "toUpperCase s = map upperChar s"

text \<open>\<open>s.includes(e)\<close>: \<open>e\<close> occurs in \<open>s\<close> as a contiguous run.\<close>

fun str_includes :: "string \<Rightarrow> string \<Rightarrow> bool" where
  "str_includes [] e = (e = [])"
| "str_includes (c # cs) e = (prefix e (c # cs) \<or> str_includes cs e)"

definition inferFrcFromRoadName :: "string \<Rightarrow> real" where
  "inferFrcFromRoadName nm =
    (if nm = [] then 3
     else let upper = toUpperCase nm in
       if list_ex (\<lambda>e. str_includes upper e) EXPRESSWAYS then 0
       else if str_includes upper ''EXPRESSWAY'' \<or> str_includes upper ''HIGHWAY'' then 0
       else 2)"

definition roadVolumeBaseline :: "real \<Rightarrow> real" where
  "roadVolumeBaseline f =
    (if f \<le> 1 then 1.0 else if f \<le> 2 then 0.7 else if f \<le> 3 then 0.5
     else if f \<le> 4 then 0.25 else if f \<le> 5 then 0.12 else 0.05)"

definition congestionEmissionMultiplier :: "real \<Rightarrow> real" where
  "congestionEmissionMultiplier c =
    (if c < 0.25 then 3.0 else if c < 0.4 then 2.5 else if c < 0.6 then 1.8
     else if c < 0.8 then 1.3 else if c < 0.95 then 1.1 else 1.0)"

definition pointToSegmentDist ::
  "real \<Rightarrow> real \<Rightarrow> real \<Rightarrow> real \<Rightarrow> real \<Rightarrow> real \<Rightarrow> real \<Rightarrow> real" where
  "pointToSegmentDist px py ax ay bx by cosLat =
    (let dx = (bx - ax) * DEG_TO_M * cosLat;
         dy = (by - ay) * DEG_TO_M;
         lenSq = dx * dx + dy * dy;
         ex = (px - ax) * DEG_TO_M * cosLat;
         ey = (py - ay) * DEG_TO_M
     in if lenSq = 0 then sqrt (ex * ex + ey * ey)
        else let t = max 0 (min 1 ((ex * dx + ey * dy) / lenSq));
                 projX = ex - t * dx;
                 projY = ey - t * dy
             in sqrt (projX * projX + projY * projY))"

text \<open>
  The body of the loop of \<open>trafficModifier\<close> is split into the values it computes for one
  band: the distance, the road class \<open>band.frc ?? inferFrcFromRoadName(band.roadName)\<close>,
  the congestion ratio and the exhaust.
\<close>

definition bandDist :: "real \<Rightarrow> real \<Rightarrow> real \<Rightarrow> TrafficSpeedBand \<Rightarrow> real" where
  "bandDist la lo cosLat band =
    pointToSegmentDist la lo (startLat band) (startLng band) (endLat band) (endLng band) cosLat"

definition bandFrc :: "TrafficSpeedBand \<Rightarrow> real" where
  "bandFrc band =
    (case frc band of Some f \<Rightarrow> f | None \<Rightarrow> inferFrcFromRoadName (roadName band))"

definition bandCongestion :: "TrafficSpeedBand \<Rightarrow> real" where
  "bandCongestion band =
    (case congestionRatio band of
       Some c \<Rightarrow> c
     | None \<Rightarrow>
         if bandFrc band \<le> 1 then min 1 (speedBand band / 8)
         else if speedBand band \<le> 2 then 0.4
         else if speedBand band \<le> 4 then 0.7
         else 0.95)"

definition bandExhaust :: "real \<Rightarrow> real \<Rightarrow> real \<Rightarrow> TrafficSpeedBand \<Rightarrow> real" where
  "bandExhaust la lo cosLat band =
    (let distanceFactor = 1 - bandDist la lo cosLat band / TRAFFIC_RADIUS;
         volume = roadVolumeBaseline (bandFrc band);
         emission = congestionEmissionMultiplier (bandCongestion band)
     in volume * emission * distanceFactor)"

text \<open>One iteration: the two \<open>continue\<close>s leave \<open>worstExhaust\<close> as it is.\<close>

definition trafficStep ::
  "real \<Rightarrow> real \<Rightarrow> real \<Rightarrow> real \<Rightarrow> TrafficSpeedBand \<Rightarrow> real" where
  "trafficStep la lo cosLat worstExhaust band =
    (if startLat band = 0 \<or> startLng band = 0 then worstExhaust
     else if bandDist la lo cosLat band \<ge> TRAFFIC_RADIUS then worstExhaust
     else if bandExhaust la lo cosLat band > worstExhaust then bandExhaust la lo cosLat band
     else worstExhaust)"

definition worstExhaustOf :: "real \<Rightarrow> real \<Rightarrow> real \<Rightarrow> TrafficSpeedBand list \<Rightarrow> real" where
  "worstExhaustOf la lo cosLat speedBands = foldl (trafficStep la lo cosLat) 0 speedBands"

definition trafficModifier :: "real \<Rightarrow> real \<Rightarrow> TrafficSpeedBand list \<Rightarrow> real" where
  "trafficModifier la lo speedBands =
    (if speedBands = [] then 0
     else let cosLat = cos (la * pi / 180);
              worstExhaust = worstExhaustOf la lo cosLat speedBands;
              penalty = min 4.0 (worstExhaust * 3.5)
          in round1 penalty)"

section \<open>Polygon geometry\<close>

text \<open>
  Both polygon loops run \<open>for (i = 0, j = ring.length - 1; i < ring.length; j = i++)\<close>:
  they visit the pairs \<open>(ring[i], ring[j])\<close> where \<open>j\<close> is the index before \<open>i\<close>,
  cyclically. An empty ring gives no pair.
\<close>

definition ringEdges :: "ring \<Rightarrow> ((real \<times> real) \<times> (real \<times> real)) list" where
  "ringEdges r = (if r = [] then [] else zip r (last r # butlast r))"

definition crossing :: "real \<Rightarrow> real \<Rightarrow> (real \<times> real) \<times> (real \<times> real) \<Rightarrow> bool" where
  \<comment> \<open>the condition of \<open>pointInPolygon\<close>, with \<open>xi = ring[i][0]\<close> and \<open>yi = ring[i][1]\<close>\<close>
  "crossing la lo e =
    (case e of ((xi, yi), (xj, yj)) \<Rightarrow>
       (yi > la) \<noteq> (yj > la) \<and> lo < (xj - xi) * (la - yi) / (yj - yi) + xi)"

definition pointInPolygon :: "real \<Rightarrow> real \<Rightarrow> ring \<Rightarrow> bool" where
  "pointInPolygon la lo r =
    foldl (\<lambda>inside e. if crossing la lo e then \<not> inside else inside) False (ringEdges r)"

definition edgeDist :: "real \<Rightarrow> real \<Rightarrow> real \<Rightarrow> (real \<times> real) \<times> (real \<times> real) \<Rightarrow> real" where
  \<comment> \<open>\<open>pointToSegmentDist(lat, lng, ring[i][1], ring[i][0], ring[j][1], ring[j][0], cosLat)\<close>\<close>
  "edgeDist la lo cosLat e =
    (case e of ((xi, yi), (xj, yj)) \<Rightarrow> pointToSegmentDist la lo yi xi yj xj cosLat)"

definition belowInf :: "real \<Rightarrow> real option \<Rightarrow> bool" where
  \<comment> \<open>\<open>d < m\<close> where \<open>None\<close> stands for \<open>Infinity\<close>\<close>
  "belowInf d m = (case m of None \<Rightarrow> True | Some v \<Rightarrow> d < v)"

definition distToPolygonEdge :: "real \<Rightarrow> real \<Rightarrow> ring \<Rightarrow> real \<Rightarrow> real option" where
  "distToPolygonEdge la lo r cosLat =
    foldl (\<lambda>minDist e. let d = edgeDist la lo cosLat e in
                          if belowInf d minDist then Some d else minDist)
      None (ringEdges r)"

definition infBelow :: "real option \<Rightarrow> real \<Rightarrow> bool" where
  \<comment> \<open>\<open>dst < b\<close> where \<open>None\<close> stands for \<open>Infinity\<close>\<close>
  "infBelow dst b = (case dst of None \<Rightarrow> False | Some d \<Rightarrow> d < b)"

section \<open>Green zones\<close>

definition GREEN_BUFFER_M :: real where
  "GREEN_BUFFER_M = 150"

definition GREEN_ZONES :: "Zone list" where
  "GREEN_ZONES =
    [
     \<lparr>name = ''East Coast Park'',
      ring =
        [(1.296, 103.868), (1.293, 103.880), (1.293, 103.900), (1.295, 103.920),
         (1.297, 103.940), (1.299, 103.950), (1.302, 103.955), (1.305, 103.950),
         (1.304, 103.940), (1.303, 103.920), (1.301, 103.900), (1.300, 103.880),
         (1.300, 103.868)]\<rparr>,
     \<lparr>name = ''Gardens by the Bay'',
      ring =
        [(1.278, 103.861), (1.278, 103.870), (1.284, 103.870), (1.284, 103.861)]\<rparr>,
     \<lparr>name = ''Marina Bay Promenade'',
      ring =
        [(1.284, 103.852), (1.284, 103.861), (1.290, 103.861), (1.290, 103.852)]\<rparr>,
     \<lparr>name = ''Botanic Gardens'',
      ring =
        [(1.310, 103.813), (1.310, 103.820), (1.322, 103.820), (1.322, 103.813)]\<rparr>,
     \<lparr>name = ''MacRitchie Reservoir'',
      ring =
        [(1.335, 103.820), (1.335, 103.840), (1.348, 103.840), (1.355, 103.835),
         (1.355, 103.825), (1.348, 103.820)]\<rparr>,
     \<lparr>name = ''Bedok Reservoir Park'',
      ring =
        [(1.336, 103.930), (1.336, 103.940), (1.342, 103.940), (1.342, 103.930)]\<rparr>,
     \<lparr>name = ''Pandan Reservoir Park'',
      ring =
        [(1.305, 103.735), (1.305, 103.748), (1.315, 103.748), (1.315, 103.735)]\<rparr>,
     \<lparr>name = ''Jurong Lake Gardens'',
      ring =
        [(1.330, 103.720), (1.330, 103.740), (1.340, 103.740), (1.345, 103.735),
         (1.345, 103.725), (1.340, 103.720)]\<rparr>,
     \<lparr>name = ''West Coast Park'',
      ring =
        [(1.280, 103.758), (1.280, 103.770), (1.287, 103.770), (1.287, 103.758)]\<rparr>,
     \<lparr>name = ''Pasir Ris Park'',
      ring =
        [(1.373, 103.942), (1.373, 103.960), (1.382, 103.960), (1.382, 103.942)]\<rparr>,
     \<lparr>name = ''Bishan-AMK Park'',
      ring =
        [(1.356, 103.843), (1.356, 103.852), (1.365, 103.852), (1.365, 103.843)]\<rparr>,
     \<lparr>name = ''Fort Canning Park'',
      ring =
        [(1.293, 103.843), (1.293, 103.849), (1.298, 103.849), (1.298, 103.843)]\<rparr>,
     \<lparr>name = ''Labrador Nature Reserve'',
      ring =
        [(1.264, 103.800), (1.264, 103.808), (1.270, 103.808), (1.270, 103.800)]\<rparr>,
     \<lparr>name = ''Kent Ridge Park'',
      ring =
        [(1.282, 103.787), (1.282, 103.796), (1.290, 103.796), (1.290, 103.787)]\<rparr>,
     \<lparr>name = ''Seletar Reservoir'',
      ring =
        [(1.393, 103.815), (1.393, 103.830), (1.402, 103.830), (1.402, 103.815)]\<rparr>,
     \<lparr>name = ''Punggol Waterway Park'',
      ring =
        [(1.404, 103.898), (1.404, 103.914), (1.412, 103.914), (1.412, 103.898)]\<rparr>,
     \<lparr>name = ''Coney Island'',
      ring =
        [(1.411, 103.915), (1.411, 103.930), (1.418, 103.930), (1.418, 103.915)]\<rparr>,
     \<lparr>name = ''Tampines Eco Green'',
      ring =
        [(1.355, 103.952), (1.355, 103.960), (1.362, 103.960), (1.362, 103.952)]\<rparr>,
     \<lparr>name = ''Southern Ridges'',
      ring =
        [(1.270, 103.800), (1.275, 103.818), (1.280, 103.818), (1.275, 103.800)]\<rparr>,
     \<lparr>name = ''Bukit Timah Nature Reserve'',
      ring =
        [(1.348, 103.772), (1.348, 103.782), (1.358, 103.782), (1.358, 103.772)]\<rparr>
    ]"

record GreenCheck =
  inPark :: bool
  nearPark :: bool

fun greenZoneLoop :: "real \<Rightarrow> real \<Rightarrow> real \<Rightarrow> Zone list \<Rightarrow> GreenCheck" where
  "greenZoneLoop la lo cosLat [] = \<lparr>inPark = False, nearPark = False\<rparr>"
| "greenZoneLoop la lo cosLat (zone # zs) =
    (if pointInPolygon la lo (ring zone) then \<lparr>inPark = True, nearPark = True\<rparr>
     else if infBelow (distToPolygonEdge la lo (ring zone) cosLat) GREEN_BUFFER_M
       then \<lparr>inPark = False, nearPark = True\<rparr>
     else greenZoneLoop la lo cosLat zs)"

definition greenZoneCheck :: "real \<Rightarrow> real \<Rightarrow> real \<Rightarrow> GreenCheck" where
  "greenZoneCheck la lo cosLat = greenZoneLoop la lo cosLat GREEN_ZONES"

section \<open>Industrial zones\<close>

definition INDUSTRIAL_ZONES :: "Zone list" where
  "INDUSTRIAL_ZONES =
    [
     \<lparr>name = ''Jurong Industrial Estate'',
      ring =
        [(103.690, 1.308), (103.720, 1.306), (103.730, 1.312), (103.730, 1.335),
         (103.720, 1.340), (103.705, 1.342), (103.690, 1.335)]\<rparr>,
     \<lparr>name = ''Tuas Industrial'',
      ring =
        [(103.618, 1.305), (103.655, 1.303), (103.660, 1.318), (103.655, 1.338),
         (103.635, 1.342), (103.618, 1.330)]\<rparr>,
     \<lparr>name = ''Tuas South'',
      ring =
        [(103.610, 1.280), (103.645, 1.278), (103.650, 1.292), (103.640, 1.302),
         (103.615, 1.300)]\<rparr>,
     \<lparr>name = ''Pioneer / Gul'',
      ring =
        [(103.680, 1.300), (103.700, 1.298), (103.705, 1.310), (103.700, 1.318),
         (103.685, 1.318), (103.678, 1.310)]\<rparr>,
     \<lparr>name = ''Pandan Loop / Penjuru'',
      ring =
        [(103.725, 1.290), (103.750, 1.288), (103.755, 1.298), (103.752, 1.310),
         (103.740, 1.315), (103.725, 1.310)]\<rparr>,
     \<lparr>name = ''Jalan Buroh Industrial'',
      ring =
        [(103.720, 1.285), (103.740, 1.283), (103.742, 1.292), (103.735, 1.295),
         (103.720, 1.293)]\<rparr>,
     \<lparr>name = ''Bukit Batok Industrial'',
      ring =
        [(103.740, 1.340), (103.760, 1.338), (103.765, 1.348), (103.758, 1.355),
         (103.742, 1.352)]\<rparr>,
     \<lparr>name = ''Woodlands Industrial'',
      ring =
        [(103.768, 1.430), (103.790, 1.428), (103.795, 1.440), (103.788, 1.448),
         (103.770, 1.445)]\<rparr>,
     \<lparr>name = ''Senoko Industrial'',
      ring =
        [(103.792, 1.443), (103.815, 1.440), (103.820, 1.452), (103.812, 1.458),
         (103.795, 1.455)]\<rparr>,
     \<lparr>name = ''Kranji Industrial'',
      ring =
        [(103.740, 1.418), (103.758, 1.416), (103.762, 1.425), (103.755, 1.432),
         (103.742, 1.430)]\<rparr>,
     \<lparr>name = ''Mandai Industrial'',
      ring =
        [(103.760, 1.398), (103.778, 1.396), (103.782, 1.405), (103.775, 1.412),
         (103.762, 1.408)]\<rparr>,
     \<lparr>name = ''Seletar Aerospace'',
      ring =
        [(103.858, 1.408), (103.878, 1.406), (103.882, 1.416), (103.875, 1.422),
         (103.860, 1.418)]\<rparr>,
     \<lparr>name = ''Kallang/Kolam Ayer Industrial'',
      ring =
        [(103.865, 1.315), (103.882, 1.313), (103.886, 1.326), (103.878, 1.332),
         (103.866, 1.328)]\<rparr>,
     \<lparr>name = ''Tai Seng Industrial'',
      ring =
        [(103.880, 1.338), (103.898, 1.336), (103.902, 1.346), (103.895, 1.352),
         (103.882, 1.348)]\<rparr>,
     \<lparr>name = ''Paya Lebar Industrial'',
      ring =
        [(103.883, 1.338), (103.898, 1.336), (103.902, 1.348), (103.896, 1.354),
         (103.884, 1.350)]\<rparr>,
     \<lparr>name = ''Defu Industrial'',
      ring =
        [(103.870, 1.358), (103.892, 1.356), (103.896, 1.366), (103.888, 1.372),
         (103.872, 1.368)]\<rparr>,
     \<lparr>name = ''Ubi / Eunos Industrial'',
      ring =
        [(103.892, 1.318), (103.910, 1.316), (103.914, 1.328), (103.908, 1.334),
         (103.894, 1.330)]\<rparr>,
     \<lparr>name = ''Changi Business Park'',
      ring =
        [(103.958, 1.328), (103.978, 1.326), (103.982, 1.340), (103.975, 1.345),
         (103.960, 1.342)]\<rparr>,
     \<lparr>name = ''Loyang Industrial'',
      ring =
        [(103.960, 1.358), (103.980, 1.356), (103.984, 1.366), (103.978, 1.372),
         (103.962, 1.368)]\<rparr>,
     \<lparr>name = ''Tanjong Kling Industrial'',
      ring =
        [(103.725, 1.275), (103.742, 1.273), (103.748, 1.283), (103.740, 1.290),
         (103.726, 1.287)]\<rparr>,
     \<lparr>name = ''Keppel / Tanjong Pagar Terminal'',
      ring =
        [(103.832, 1.260), (103.848, 1.258), (103.852, 1.268), (103.845, 1.274),
         (103.834, 1.270)]\<rparr>
    ]"

definition INDUSTRIAL_BUFFER_M :: real where
  "INDUSTRIAL_BUFFER_M = 300"

record Industrial =
  addition :: real
  multiplier :: real

fun industrialLoop :: "real \<Rightarrow> real \<Rightarrow> real \<Rightarrow> Zone list \<Rightarrow> Industrial" where
  "industrialLoop la lo cosLat [] = \<lparr>addition = 0, multiplier = 1\<rparr>"
| "industrialLoop la lo cosLat (zone # zs) =
    (if pointInPolygon la lo (ring zone) then \<lparr>addition = 1.2, multiplier = 1.8\<rparr>
     else case distToPolygonEdge la lo (ring zone) cosLat of
       None \<Rightarrow> industrialLoop la lo cosLat zs
     | Some dst \<Rightarrow>
         if dst < INDUSTRIAL_BUFFER_M
         then let factor = 1 - dst / INDUSTRIAL_BUFFER_M
              in \<lparr>addition = 0.8 * factor, multiplier = 1 + 0.6 * factor\<rparr>
         else industrialLoop la lo cosLat zs)"

definition industrialModifier :: "real \<Rightarrow> real \<Rightarrow> real \<Rightarrow> Industrial" where
  "industrialModifier la lo cosLat = industrialLoop la lo cosLat INDUSTRIAL_ZONES"

section \<open>Grid lookup\<close>

text \<open>
  The loop of \<open>findNearestCell\<close> with its two variables \<open>closest\<close> and \<open>minDist\<close>; the
  \<open>break\<close> returns what \<open>closest\<close> holds after the update.
\<close>

fun nearestLoop ::
  "real \<Rightarrow> real \<Rightarrow> GridCell option \<Rightarrow> real option \<Rightarrow> GridCell list \<Rightarrow> GridCell option" where
  "nearestLoop la lo closest minDist [] = closest"
| "nearestLoop la lo closest minDist (cell # rest) =
    (let d = \<bar>lat cell - la\<bar> + \<bar>lng cell - lo\<bar>;
         closest' = (if belowInf d minDist then Some cell else closest);
         minDist' = (if belowInf d minDist then Some d else minDist)
     in if d < 0.00001 then closest' else nearestLoop la lo closest' minDist' rest)"

definition findNearestCell :: "real \<Rightarrow> real \<Rightarrow> StaticGrid option \<Rightarrow> GridCell option" where
  "findNearestCell la lo grid =
    (case grid of
       None \<Rightarrow> None
     | Some g \<Rightarrow> if cells g = [] then None else nearestLoop la lo None None (cells g))"

section \<open>Scoring a single point\<close>

record Breakdown =
  bd_staticBase :: real
  bd_pm25Modifier :: real
  bd_windModifier :: real
  bd_timeModifier :: real
  bd_rainModifier :: real
  bd_trafficModifier :: real

record ScoreResult =
  score :: real
  band :: ScoreBand
  label :: string
  color :: string
  trafficMod :: real
  isIndustrial :: bool
  isGreenZone :: bool
  isNearGreenZone :: bool
  breakdown :: Breakdown
  recommendation :: string

text \<open>
  The values \<open>computeScore\<close> binds before it builds its result. \<open>clockHour\<close> is what
  \<open>new Date().getHours()\<close> reads; it is used only when \<open>hour\<close> is absent.
\<close>

definition gridBase :: "real \<Rightarrow> real \<Rightarrow> StaticGrid option \<Rightarrow> real" where
  \<comment> \<open>\<open>staticBase\<close> before the green-zone clamp\<close>
  "gridBase la lo grid =
    (case grid of
       None \<Rightarrow> 3.0
     | Some g \<Rightarrow> (case findNearestCell la lo (Some g) of Some cell \<Rightarrow> base cell | None \<Rightarrow> 3.0))"

definition baseTrafMod :: "real \<Rightarrow> real \<Rightarrow> TrafficSpeedBand list option \<Rightarrow> real" where
  "baseTrafMod la lo speedBands =
    (case speedBands of Some bs \<Rightarrow> trafficModifier la lo bs | None \<Rightarrow> 0)"

definition computeScore ::
  "real \<Rightarrow> real \<Rightarrow> real \<Rightarrow> CurrentConditions option \<Rightarrow> StaticGrid option \<Rightarrow> real option \<Rightarrow>
   TrafficSpeedBand list option \<Rightarrow> ScoreResult" where
  "computeScore clockHour la lo conditions grid hour speedBands =
    (let currentHour = (case hour of Some h \<Rightarrow> h | None \<Rightarrow> clockHour);
         staticBase0 = gridBase la lo grid;
         pm25Mod = (case conditions of Some c \<Rightarrow> pm25Modifier (pm25_value (pm25 c)) | None \<Rightarrow> 0);
         windMod = (case conditions of Some c \<Rightarrow> windModifier (speed (wind c)) | None \<Rightarrow> 0);
         timeMod = timeModifier currentHour;
         rainMod = (case conditions of
                      Some c \<Rightarrow> rainModifier (isRaining (rainfall c)) (intensity (rainfall c))
                    | None \<Rightarrow> 0);
         cosLat = cos (la * pi / 180);
         indust = industrialModifier la lo cosLat;
         trafficMod' =
           min 4.5 (baseTrafMod la lo speedBands * multiplier indust + addition indust);
         green = greenZoneCheck la lo cosLat;
         staticBase = (if inPark green then min staticBase0 1.2
                       else if nearPark green then min staticBase0 2.0
                       else staticBase0);
         raw = staticBase + pm25Mod + windMod + timeMod + rainMod + trafficMod';
         score' = max 1 (min 10 (round1 raw));
         band' = getBand score'
     in \<lparr>score = score',
         band = fst (snd band'),
         label = fst (snd (snd band')),
         color = snd (snd (snd band')),
         trafficMod = round1 trafficMod',
         isIndustrial = (addition indust > 0),
         isGreenZone = inPark green,
         isNearGreenZone = nearPark green,
         breakdown =
           \<lparr>bd_staticBase = round1 staticBase,
            bd_pm25Modifier = round1 pm25Mod,
            bd_windModifier = round1 windMod,
            bd_timeModifier = round1 timeMod,
            bd_rainModifier = round1 rainMod,
            bd_trafficModifier = round1 trafficMod'\<rparr>,
         recommendation = ''''\<rparr>)"

section \<open>Scoring a route\<close>

text \<open>
  A scored sample of a route. The fields carry the prefix \<open>sp_\<close> because \<open>lat\<close>,
  \<open>score\<close>, \<open>band\<close>, \<open>color\<close> and \<open>trafficMod\<close> are already fields above.
  \<open>trafficMod?\<close> is optional in the type.
\<close>

record ScoredPoint =
  sp_lat :: real
  sp_lng :: real
  sp_distanceM :: real
  sp_score :: real
  sp_color :: string
  sp_band :: ScoreBand
  sp_trafficMod :: "real option"
  sp_industrialZone :: bool
  sp_greenZone :: bool
  sp_nearGreenZone :: bool

record Sample =
  s_lat :: real
  s_lng :: real
  s_distanceM :: real

definition scoreRoutePoints ::
  "real \<Rightarrow> Sample list \<Rightarrow> CurrentConditions option \<Rightarrow> StaticGrid option \<Rightarrow>
   TrafficSpeedBand list \<Rightarrow> ScoredPoint list" where
  "scoreRoutePoints clockHour interpolated conditions grid speedBands =
    map (\<lambda>p. let r = computeScore clockHour (s_lat p) (s_lng p) conditions grid None
                         (Some speedBands)
              in \<lparr>sp_lat = s_lat p, sp_lng = s_lng p, sp_distanceM = s_distanceM p,
                  sp_score = score r, sp_color = color r, sp_band = band r,
                  sp_trafficMod = Some (trafficMod r),
                  sp_industrialZone = isIndustrial r,
                  sp_greenZone = isGreenZone r,
                  sp_nearGreenZone = isNearGreenZone r\<rparr>)
      interpolated"

section \<open>Route rating\<close>

record Factor =
  f_label :: string
  pct :: real
  detail :: string

record RouteRating =
  overall :: real
  trafficExposure :: real
  airQuality :: real
  greenCorridor :: real
  consistency :: real
  summary :: string
  factors :: "Factor list"

text \<open>
  Text helpers. The percentages put into the texts are whole numbers from 0 to 100, printed
  in decimal. \<open>toLowerCase\<close> is taken on ASCII; the dash of two of the texts, U+2014, is
  written as its three UTF-8 bytes, which \<open>toLowerCase\<close> leaves alone.
\<close>

fun natToString :: "nat \<Rightarrow> string" where
  "natToString n =
    (if n < 10 then [char_of (48 + n)]
     else natToString (n div 10) @ [char_of (48 + n mod 10)])"

definition numToString :: "real \<Rightarrow> string" where
  "numToString x = natToString (nat \<lfloor>x\<rfloor>)"

definition lowerChar :: "char \<Rightarrow> char" where
  "lowerChar c =
    (let n = (of_char c :: nat) in if 65 \<le> n \<and> n \<le> 90 then char_of (n + 32) else c)"

definition toLowerCase :: "string \<Rightarrow> string" where
  "toLowerCase s = map lowerChar s"

definition emDash :: string where
  "emDash = [char_of (226 :: nat), char_of (128 :: nat), char_of (148 :: nat)]"

definition ladder :: "real \<Rightarrow> string \<Rightarrow> string \<Rightarrow> string \<Rightarrow> string \<Rightarrow> string" where
  \<comment> \<open>the chain \<open>p >= 80 ? a : p >= 60 ? b : p >= 40 ? c : d\<close> of every detail text\<close>
  "ladder p a b c d = (if p \<ge> 80 then a else if p \<ge> 60 then b else if p \<ge> 40 then c else d)"

text \<open>
  \<open>rateRoute\<close> is one function in the source. Its local bindings are named here, one
  definition for each (\<open>trafficPct\<close>, \<open>airPct\<close>, \<open>greenPct\<close>,
  \<open>consistencyPct\<close>, \<open>industrialPct\<close>, \<open>overall\<close>, \<open>factors\<close>,
  \<open>summary\<close>), and put together in \<open>rateRoute\<close> below. The list is not empty
  where they are used: \<open>Math.max(...trafficMods)\<close> is the maximum of a non-empty list.
  \<open>[...factors].sort((a, b) => a.pct - b.pct)[0]\<close> is the first factor of least
  percentage, the sort being stable.
\<close>

definition neutralRating :: RouteRating where
  "neutralRating =
    \<lparr>overall = 50, trafficExposure = 50, airQuality = 50, greenCorridor = 50,
     consistency = 50, summary = ''No data'', factors = []\<rparr>"

definition trafficPctOf :: "ScoredPoint list \<Rightarrow> real" where
  "trafficPctOf scoredPoints =
    (let trafficMods = map (\<lambda>p. case sp_trafficMod p of Some t \<Rightarrow> t | None \<Rightarrow> 0) scoredPoints;
         avgTrafficMod = foldl (+) 0 trafficMods / real (length trafficMods);
         maxTrafficMod = foldl max (hd trafficMods) (tl trafficMods)
     in Math_round (max 0 (min 100 (100 - (avgTrafficMod * 0.6 + maxTrafficMod * 0.4) * 25))))"

definition avgScoreOf :: "ScoredPoint list \<Rightarrow> real" where
  "avgScoreOf scoredPoints =
    (let scores = map sp_score scoredPoints in foldl (+) 0 scores / real (length scores))"

definition airPctOf :: "ScoredPoint list \<Rightarrow> real" where
  "airPctOf scoredPoints =
    Math_round (max 0 (min 100 (((10 - avgScoreOf scoredPoints) / 9) * 100)))"

definition basescoresOf :: "ScoredPoint list \<Rightarrow> StaticGrid option \<Rightarrow> real list" where
  "basescoresOf scoredPoints grid =
    map (\<lambda>p. case grid of
                None \<Rightarrow> 3
              | Some g \<Rightarrow> (case findNearestCell (sp_lat p) (sp_lng p) (Some g) of
                             Some cell \<Rightarrow> base cell
                           | None \<Rightarrow> 3))
      scoredPoints"

definition greenFromZonesOf :: "ScoredPoint list \<Rightarrow> nat" where
  "greenFromZonesOf scoredPoints = length (filter sp_greenZone scoredPoints)"

definition greenPctOf :: "ScoredPoint list \<Rightarrow> StaticGrid option \<Rightarrow> real" where
  "greenPctOf scoredPoints grid =
    (let basescores = basescoresOf scoredPoints grid;
         greenFromGrid = length (filter (\<lambda>b. b \<le> 1.5) basescores);
         parkFromGrid = length (filter (\<lambda>b. b \<le> 2.5) basescores);
         greenFromZones = greenFromZonesOf scoredPoints;
         nearGreenFromZones = length (filter sp_nearGreenZone scoredPoints);
         greenCount = max greenFromGrid greenFromZones;
         parkCount = max parkFromGrid nearGreenFromZones
     in Math_round (min 100
          ((real greenCount / real (length basescores)) * 100 * 0.7 +
           (real parkCount / real (length basescores)) * 100 * 0.3)))"

definition consistencyPctOf :: "ScoredPoint list \<Rightarrow> real" where
  "consistencyPctOf scoredPoints =
    (let scores = map sp_score scoredPoints;
         avgScore = avgScoreOf scoredPoints;
         variance = foldl (\<lambda>sum s. sum + (s - avgScore)\<^sup>2) 0 scores / real (length scores);
         stdDev = sqrt variance
     in Math_round (max 0 (min 100 ((1 - stdDev / 3) * 100))))"

definition industrialPctOf :: "ScoredPoint list \<Rightarrow> real" where
  "industrialPctOf scoredPoints =
    Math_round ((real (length (filter sp_industrialZone scoredPoints)) /
                 real (length scoredPoints)) * 100)"

definition overallOf :: "real \<Rightarrow> real \<Rightarrow> real \<Rightarrow> real \<Rightarrow> real" where
  "overallOf trafficPct airPct greenPct consistencyPct =
    Math_round (trafficPct * 0.4 + airPct * 0.3 + greenPct * 0.2 + consistencyPct * 0.1)"

definition factorsOf :: "ScoredPoint list \<Rightarrow> StaticGrid option \<Rightarrow> Factor list" where
  "factorsOf scoredPoints grid =
    (let trafficPct = trafficPctOf scoredPoints;
         airPct = airPctOf scoredPoints;
         greenPct = greenPctOf scoredPoints grid;
         consistencyPct = consistencyPctOf scoredPoints;
         industrialPct = industrialPctOf scoredPoints;
         trafficDetail = ladder trafficPct ''Minimal road exhaust exposure''
           ''Some road-adjacent stretches'' ''Significant traffic exposure''
           ''Heavy traffic along much of the route'';
         industrialNote =
           (if industrialPct > 0
            then '' ('' @ numToString industrialPct @ ''% near industrial zones)'' else '''');
         zonePct = Math_round ((real (greenFromZonesOf scoredPoints) /
                                real (length scoredPoints)) * 100);
         greenBase = ladder greenPct ''Mostly through parks and green space''
           ''Good mix of greenery'' ''Some green sections'' ''Mostly urban, limited greenery''
     in [\<lparr>f_label = ''Traffic Exposure'', pct = trafficPct,
           detail = trafficDetail @ industrialNote\<rparr>,
         \<lparr>f_label = ''Air Quality'', pct = airPct,
           detail = ladder airPct ''Clean air throughout'' ''Generally good air''
             ''Moderate pollution levels'' ''Poor air quality conditions''\<rparr>,
         \<lparr>f_label = ''Green Corridor'', pct = greenPct,
           detail = (if zonePct > 0
                     then greenBase @ '' ('' @ numToString zonePct @ ''% in known parks)''
                     else greenBase)\<rparr>,
         \<lparr>f_label = ''Consistency'', pct = consistencyPct,
           detail = ladder consistencyPct ''Even conditions throughout'' ''Mostly consistent''
             ''Some bad patches along the way''
             (''Quality varies a lot '' @ emDash @ '' expect bad stretches'')\<rparr>])"

definition summaryOf :: "real \<Rightarrow> Factor list \<Rightarrow> string" where
  "summaryOf ov fs =
    (let summary0 =
           (if ov \<ge> 85
            then ''Excellent route '' @ emDash @ '' clean air, low traffic, great for hard efforts.''
            else if ov \<ge> 70 then ''Good route for running with minor compromises.''
            else if ov \<ge> 55 then ''Decent but has some traffic or pollution exposure.''
            else if ov \<ge> 40
            then ''Below average '' @ emDash @ '' consider alternatives if available.''
            else ''Poor conditions '' @ emDash @ '' heavy traffic and pollution exposure.'');
         worst = hd (sort_key pct fs)
     in if pct worst < 60
        then summary0 @ '' Main concern: '' @ toLowerCase (detail worst) @ ''.''
        else summary0)"

definition rateRoute :: "ScoredPoint list \<Rightarrow> StaticGrid option \<Rightarrow> RouteRating" where
  "rateRoute scoredPoints grid =
    (if scoredPoints = [] then neutralRating
     else let trafficPct = trafficPctOf scoredPoints;
              airPct = airPctOf scoredPoints;
              greenPct = greenPctOf scoredPoints grid;
              consistencyPct = consistencyPctOf scoredPoints;
              overall' = overallOf trafficPct airPct greenPct consistencyPct;
              factors' = factorsOf scoredPoints grid
          in \<lparr>overall = overall', trafficExposure = trafficPct, airQuality = airPct,
              greenCorridor = greenPct, consistency = consistencyPct,
              summary = summaryOf overall' factors', factors = factors'\<rparr>)"

section \<open>Notions used by the properties\<close>

text \<open>
  A band is skipped by the loop of \<open>trafficModifier\<close> when one of its two \<open>continue\<close>s
  fires: a start coordinate is zero, or the band is not strictly inside the radius.
\<close>

definition skipped :: "real \<Rightarrow> real \<Rightarrow> real \<Rightarrow> TrafficSpeedBand \<Rightarrow> bool" where
  "skipped la lo cosLat b \<longleftrightarrow>
     startLat b = 0 \<or> startLng b = 0 \<or> bandDist la lo cosLat b \<ge> TRAFFIC_RADIUS"

text \<open>Sample inputs: conditions with a given PM2.5 reading, and a band drawn at one point.\<close>

definition sampleConditions :: "real \<Rightarrow> CurrentConditions" where
  "sampleConditions p =
    \<lparr>pm25 = \<lparr>pm25_value = p, pm25_band = good, regions = []\<rparr>,
     wind = \<lparr>speed = 8, direction = ''NE''\<rparr>, temperature = 30,
     rainfall = \<lparr>isRaining = False, intensity = ''None''\<rparr>, humidity = 80,
     timestamp = ''2025-01-01T08:00:00''\<rparr>"

definition sampleBand :: "real \<Rightarrow> real \<Rightarrow> real option \<Rightarrow> real option \<Rightarrow> TrafficSpeedBand" where
  "sampleBand la lo f c =
    \<lparr>linkId = ''L1'', roadName = ''SAMPLE ROAD'', speedBand = 8,
     startLat = la, startLng = lo, endLat = la, endLng = lo,
     frc = f, congestionRatio = c\<rparr>"

text \<open>A band that starts at the point (1.3, 103.8) and whose end coordinates are zero.\<close>

definition zeroEndBand :: TrafficSpeedBand where
  "zeroEndBand =
    \<lparr>linkId = ''L2'', roadName = ''SAMPLE ROAD'', speedBand = 8,
     startLat = 1.3, startLng = 103.8, endLat = 0, endLng = 0,
     frc = Some 0, congestionRatio = Some 1\<rparr>"

text \<open>A band without \<open>frc\<close> and \<open>congestionRatio\<close>, with a given road name.\<close>

definition namedBand :: "string \<Rightarrow> TrafficSpeedBand" where
  "namedBand nm =
    \<lparr>linkId = ''L3'', roadName = nm, speedBand = 8,
     startLat = 1.3, startLng = 103.8, endLat = 1.3, endLng = 103.801,
     frc = None, congestionRatio = None\<rparr>"

text \<open>
  The words of the specification for the road class inferred from a name: the name
  contains a word when some contiguous part of it equals the word up to letter case.
\<close>

definition containsCI :: "string \<Rightarrow> string \<Rightarrow> bool" where
  "containsCI s w \<longleftrightarrow> (\<exists>pre mid post. s = pre @ mid @ post \<and> toUpperCase mid = toUpperCase w)"

definition namesExpressway :: "string \<Rightarrow> bool" where
  "namesExpressway nm \<longleftrightarrow>
     (\<exists>e\<in>set EXPRESSWAYS. containsCI nm e) \<or> containsCI nm ''EXPRESSWAY'' \<or> containsCI nm ''HIGHWAY''"

text \<open>
  The L1 degree distance of \<open>findNearestCell\<close>, and the cells its loop reaches: all
  cells up to and including the first one within 0.00001 of the query point.
\<close>

definition l1dist :: "real \<Rightarrow> real \<Rightarrow> GridCell \<Rightarrow> real" where
  "l1dist la lo c = \<bar>lat c - la\<bar> + \<bar>lng c - lo\<bar>"

fun scanned :: "real \<Rightarrow> real \<Rightarrow> GridCell list \<Rightarrow> GridCell list" where
  "scanned la lo [] = []"
| "scanned la lo (c # cs) = (if l1dist la lo c < 0.00001 then [c] else c # scanned la lo cs)"

text \<open>Sample grids.\<close>

definition cellAt :: "real \<Rightarrow> real \<Rightarrow> real \<Rightarrow> GridCell" where
  "cellAt la lo b = \<lparr>lat = la, lng = lo, base = b\<rparr>"

definition gridOf :: "GridCell list \<Rightarrow> StaticGrid" where
  "gridOf cs =
    \<lparr>resolution_m = 50,
     bounds = \<lparr>lat_min = 1.2, lat_max = 1.5, lng_min = 103.6, lng_max = 104.1\<rparr>,
     cells = cs\<rparr>"

text \<open>
  Bounds used to evaluate the zone tests. \<open>axisSep p a b\<close> is how far \<open>p\<close> lies outside
  the interval between \<open>a\<close> and \<open>b\<close> (negative inside). An edge is far from a point
  when the point is at least \<open>L\<close> metres outside the longitude range of the edge, or at
  least \<open>2 L\<close> metres (at 111320 m per degree) outside its latitude range.
\<close>

definition axisSep :: "real \<Rightarrow> real \<Rightarrow> real \<Rightarrow> real" where
  "axisSep p a b = max (min (p - a) (p - b)) (min (a - p) (b - p))"

definition farLng :: "real \<Rightarrow> real \<Rightarrow> (real \<times> real) \<times> (real \<times> real) \<Rightarrow> bool" where
  "farLng L lo e =
    (case e of ((xi, yi), (xj, yj)) \<Rightarrow>
       (L \<le> DEG_TO_M * (lo - xi) \<and> L \<le> DEG_TO_M * (lo - xj)) \<or>
       (L \<le> DEG_TO_M * (xi - lo) \<and> L \<le> DEG_TO_M * (xj - lo)))"

definition farLat :: "real \<Rightarrow> real \<Rightarrow> (real \<times> real) \<times> (real \<times> real) \<Rightarrow> bool" where
  "farLat L la e =
    (case e of ((xi, yi), (xj, yj)) \<Rightarrow>
       (2 * L \<le> DEG_TO_M * (la - yi) \<and> 2 * L \<le> DEG_TO_M * (la - yj)) \<or>
       (2 * L \<le> DEG_TO_M * (yi - la) \<and> 2 * L \<le> DEG_TO_M * (yj - la)))"

definition farEdge :: "real \<Rightarrow> real \<Rightarrow> real \<Rightarrow> (real \<times> real) \<times> (real \<times> real) \<Rightarrow> bool" where
  "farEdge L la lo e \<longleftrightarrow> farLng L lo e \<or> farLat L la e"

text \<open>
  A zone matches a point when \<open>industrialModifier\<close> returns at it: the point is inside the
  ring or strictly within the buffer of its boundary.
\<close>

definition zoneMatches :: "real \<Rightarrow> real \<Rightarrow> real \<Rightarrow> Zone \<Rightarrow> bool" where
  "zoneMatches la lo cosLat z \<longleftrightarrow>
     pointInPolygon la lo (ring z) \<or>
     infBelow (distToPolygonEdge la lo (ring z) cosLat) INDUSTRIAL_BUFFER_M"

section \<open>Properties\<close>

subsection \<open>Rounding\<close>

lemma Math_round_mono: "x \<le> y \<Longrightarrow> Math_round x \<le> Math_round y"
  unfolding Math_round_def by (simp add: floor_mono)

lemma round1_mono: "x \<le> y \<Longrightarrow> round1 x \<le> round1 y"
  unfolding round1_def by (simp add: Math_round_mono divide_right_mono)

lemma round1_zero: "round1 0 = 0"
  by (simp add: round1_def Math_round_def)

lemma Math_round_range:
  assumes "0 \<le> x" and "x \<le> 100"
  shows "0 \<le> Math_round x \<and> Math_round x \<le> 100"
proof -
  have "(0::int) \<le> \<lfloor>x + 1 / 2\<rfloor>" using assms(1) by (simp add: le_floor_iff)
  moreover have "\<lfloor>x + 1 / 2\<rfloor> \<le> (100::int)" using assms(2) by (simp add: floor_le_iff)
  ultimately show ?thesis unfolding Math_round_def by simp
qed

lemma Math_round_clamp:
  "0 \<le> Math_round (max 0 (min 100 x)) \<and> Math_round (max 0 (min 100 x)) \<le> 100"
  by (rule Math_round_range) simp_all

lemma round1_range4:
  assumes "0 \<le> x" and "x \<le> 4"
  shows "0 \<le> round1 x \<and> round1 x \<le> 4"
proof -
  have "(0::int) \<le> \<lfloor>x * 10 + 1 / 2\<rfloor>" using assms(1) by (simp add: le_floor_iff)
  moreover have "\<lfloor>x * 10 + 1 / 2\<rfloor> \<le> (40::int)" using assms(2) by (simp add: floor_le_iff)
  ultimately show ?thesis unfolding round1_def Math_round_def by simp
qed

subsection \<open>The sample band\<close>

lemma sampleBand_sel:
  "startLat (sampleBand la lo f c) = la" "startLng (sampleBand la lo f c) = lo"
  "endLat (sampleBand la lo f c) = la" "endLng (sampleBand la lo f c) = lo"
  "frc (sampleBand la lo f c) = f" "congestionRatio (sampleBand la lo f c) = c"
  by (simp_all add: sampleBand_def)

text \<open>
  A segment that is a single point on the latitude of the query point: the distance is the
  longitude difference in metres, whatever \<open>cosLat\<close> is.
\<close>

lemma pointToSegmentDist_point_same_lat:
  "pointToSegmentDist px py px ay px ay c = \<bar>py - ay\<bar> * DEG_TO_M"
proof -
  have "0 \<le> DEG_TO_M" by (simp add: DEG_TO_M_def)
  then show ?thesis
    unfolding pointToSegmentDist_def Let_def by (simp add: abs_mult)
qed

lemma bandDist_sampleBand:
  "bandDist la lo c (sampleBand la lo' f cr) = \<bar>lo - lo'\<bar> * DEG_TO_M"
  unfolding bandDist_def sampleBand_def by (simp add: pointToSegmentDist_point_same_lat)

subsection \<open>The traffic exhaust model\<close>

lemma trafficStep_ge: "w \<le> trafficStep la lo cl w b"
  unfolding trafficStep_def by simp

lemma foldl_trafficStep_ge: "w \<le> foldl (trafficStep la lo cl) w bs"
proof (induction bs arbitrary: w)
  case Nil
  show ?case by simp
next
  case (Cons b bs)
  have "w \<le> trafficStep la lo cl w b" by (rule trafficStep_ge)
  also have "\<dots> \<le> foldl (trafficStep la lo cl) (trafficStep la lo cl w b) bs"
    by (rule Cons.IH)
  finally show ?case by simp
qed

lemma worstExhaustOf_nonneg: "0 \<le> worstExhaustOf la lo cl bs"
  unfolding worstExhaustOf_def by (rule foldl_trafficStep_ge)

text \<open>The early return on the empty list agrees with what the loop would give.\<close>

lemma trafficModifier_eq:
  "trafficModifier la lo bs =
     round1 (min 4 (worstExhaustOf la lo (cos (la * pi / 180)) bs * 3.5))"
  by (cases bs) (simp_all add: trafficModifier_def worstExhaustOf_def round1_zero Let_def)

lemma trafficModifier_range: "0 \<le> trafficModifier la lo bs \<and> trafficModifier la lo bs \<le> 4"
  unfolding trafficModifier_eq
  using worstExhaustOf_nonneg [of la lo "cos (la * pi / 180)" bs]
  by (intro round1_range4) simp_all

lemma trafficStep_skipped: "skipped la lo cl b \<Longrightarrow> trafficStep la lo cl w b = w"
  unfolding skipped_def trafficStep_def by auto

lemma trafficStep_qualifying:
  "\<not> skipped la lo cl b \<Longrightarrow> trafficStep la lo cl w b = max w (bandExhaust la lo cl b)"
  unfolding skipped_def trafficStep_def by auto

lemma foldl_trafficStep_all_skipped:
  "\<forall>b\<in>set bs. skipped la lo cl b \<Longrightarrow> foldl (trafficStep la lo cl) w bs = w"
  by (induction bs arbitrary: w) (simp_all add: trafficStep_skipped)


text \<open>
  The base traffic modifier lies in \<open>[0, 4]\<close>. It is exactly 0 on the empty list, and
  on a list in which every band is skipped by the guard of the loop (a start coordinate is
  zero) or lies at 400 m or more from the point. A band at exactly 400 m contributes
  nothing: removing it from the list leaves the modifier unchanged. A zero end coordinate
  is not part of the guard; see the bands with a zero end below.
\<close>

lemma trafficModifier_range_zero_strict:
  "0 \<le> trafficModifier la lo bs \<and> trafficModifier la lo bs \<le> 4 \<and>
   trafficModifier la lo [] = 0 \<and>
   ((\<forall>b\<in>set bs. startLat b = 0 \<or> startLng b = 0 \<or>
        bandDist la lo (cos (la * pi / 180)) b \<ge> 400) \<longrightarrow> trafficModifier la lo bs = 0) \<and>
   (bandDist la lo (cos (la * pi / 180)) b = 400 \<longrightarrow>
      trafficModifier la lo (xs @ b # ys) = trafficModifier la lo (xs @ ys))"
proof -
  let ?c = "cos (la * pi / 180)"
  have z: "trafficModifier la lo bs = 0"
    if "\<forall>b\<in>set bs. startLat b = 0 \<or> startLng b = 0 \<or> bandDist la lo ?c b \<ge> 400"
  proof -
    from that have "\<forall>b\<in>set bs. skipped la lo ?c b"
      by (simp add: skipped_def TRAFFIC_RADIUS_def)
    then have "worstExhaustOf la lo ?c bs = 0"
      unfolding worstExhaustOf_def by (rule foldl_trafficStep_all_skipped)
    then show ?thesis by (simp add: trafficModifier_eq round1_zero)
  qed
  have s: "trafficModifier la lo (xs @ b # ys) = trafficModifier la lo (xs @ ys)"
    if "bandDist la lo ?c b = 400"
  proof -
    from that have "skipped la lo ?c b" by (simp add: skipped_def TRAFFIC_RADIUS_def)
    then have "worstExhaustOf la lo ?c (xs @ b # ys) = worstExhaustOf la lo ?c (xs @ ys)"
      unfolding worstExhaustOf_def by (simp add: trafficStep_skipped)
    then show ?thesis by (simp only: trafficModifier_eq)
  qed
  have e: "trafficModifier la lo [] = 0" by (simp add: trafficModifier_def)
  from trafficModifier_range [of la lo bs] z s e show ?thesis by blast
qed

text \<open>
  At the point (1.3, 103.8): a band starting at latitude 0 and a band 11 km away give 0,
  and a band at exactly 400 m added to a band at the point changes nothing.
\<close>

lemma trafficModifier_range_zero_strict_example:
  "startLat (sampleBand 0 103.8 (Some 0) (Some 1)) = 0 \<and>
   bandDist 1.3 103.8 (cos (1.3 * pi / 180)) (sampleBand 1.3 103.9 (Some 0) (Some 1)) \<ge> 400 \<and>
   bandDist 1.3 103.8 (cos (1.3 * pi / 180))
     (sampleBand 1.3 (103.8 + 10 / 2783) (Some 0) (Some 1)) = 400 \<and>
   trafficModifier 1.3 103.8
     [sampleBand 0 103.8 (Some 0) (Some 1), sampleBand 1.3 103.9 (Some 0) (Some 1)] = 0 \<and>
   trafficModifier 1.3 103.8
     ([sampleBand 1.3 103.8 (Some 0) (Some 1)] @
      sampleBand 1.3 (103.8 + 10 / 2783) (Some 0) (Some 1) # [])
     = trafficModifier 1.3 103.8 ([sampleBand 1.3 103.8 (Some 0) (Some 1)] @ [])"
proof -
  have z: "startLat (sampleBand 0 103.8 (Some 0) (Some 1)) = 0"
    by (simp add: sampleBand_sel)
  have f: "bandDist 1.3 103.8 (cos (1.3 * pi / 180)) (sampleBand 1.3 103.9 (Some 0) (Some 1))
      \<ge> 400"
    by (simp add: bandDist_sampleBand DEG_TO_M_def)
  have h1: "\<forall>b\<in>set [sampleBand 0 103.8 (Some 0) (Some 1), sampleBand 1.3 103.9 (Some 0) (Some 1)].
       startLat b = 0 \<or> startLng b = 0 \<or> bandDist 1.3 103.8 (cos (1.3 * pi / 180)) b \<ge> 400"
    using z f by simp
  have h2: "bandDist 1.3 103.8 (cos (1.3 * pi / 180))
      (sampleBand 1.3 (103.8 + 10 / 2783) (Some 0) (Some 1)) = 400"
    by (simp add: bandDist_sampleBand DEG_TO_M_def)
  note c3 = trafficModifier_range_zero_strict [of "1.3" "103.8"
      "[sampleBand 0 103.8 (Some 0) (Some 1), sampleBand 1.3 103.9 (Some 0) (Some 1)]"
      "sampleBand 1.3 (103.8 + 10 / 2783) (Some 0) (Some 1)"
      "[sampleBand 1.3 103.8 (Some 0) (Some 1)]" "[]"]
  from c3 have a: "trafficModifier 1.3 103.8
      [sampleBand 0 103.8 (Some 0) (Some 1), sampleBand 1.3 103.9 (Some 0) (Some 1)] = 0"
    using h1 by (elim conjE) (erule mp)
  from c3 have b: "trafficModifier 1.3 103.8
     ([sampleBand 1.3 103.8 (Some 0) (Some 1)] @
      sampleBand 1.3 (103.8 + 10 / 2783) (Some 0) (Some 1) # [])
     = trafficModifier 1.3 103.8 ([sampleBand 1.3 103.8 (Some 0) (Some 1)] @ [])"
    using h2 by (elim conjE) (erule mp)
  from z f h2 a b show ?thesis by (intro conjI)
qed

subsection \<open>Worst road, and bands with a zero end\<close>







lemma pointToSegmentDist_at_start: "pointToSegmentDist px py px py bx by c = 0"
  unfolding pointToSegmentDist_def Let_def by simp


text \<open>
  C2. The guard of the loop tests the start coordinates only. A band whose end latitude and
  end longitude are zero, starting at the query point, is not excluded: alone in the list
  it gives the modifier 3.5, where the empty list gives 0.
\<close>

theorem trafficModifier_zero_end_counted:
  "endLat zeroEndBand = 0 \<and> endLng zeroEndBand = 0 \<and>
   trafficModifier 1.3 103.8 [zeroEndBand] = 3.5 \<and> trafficModifier 1.3 103.8 [] = 0"
proof -
  let ?c = "cos (1.3 * pi / 180)"
  have d: "bandDist 1.3 103.8 ?c zeroEndBand = 0"
    by (simp add: bandDist_def zeroEndBand_def pointToSegmentDist_at_start)
  have ns: "\<not> skipped 1.3 103.8 ?c zeroEndBand"
    unfolding skipped_def d by (simp add: zeroEndBand_def TRAFFIC_RADIUS_def)
  have e: "bandExhaust 1.3 103.8 ?c zeroEndBand = 1"
    unfolding bandExhaust_def d
    by (simp add: bandFrc_def bandCongestion_def roadVolumeBaseline_def
        congestionEmissionMultiplier_def zeroEndBand_def)
  have "trafficModifier 1.3 103.8 [zeroEndBand] = 3.5"
    using ns e
    by (simp add: trafficModifier_eq worstExhaustOf_def trafficStep_qualifying round1_def
        Math_round_def)
  then show ?thesis by (simp add: zeroEndBand_def trafficModifier_def)
qed

lemma zeroEndBand_counted:
  "\<not> skipped 1.3 103.8 c zeroEndBand \<and> bandExhaust 1.3 103.8 c zeroEndBand = 1"
proof -
  have d: "bandDist 1.3 103.8 c zeroEndBand = 0"
    by (simp add: bandDist_def zeroEndBand_def pointToSegmentDist_at_start)
  have ns: "\<not> skipped 1.3 103.8 c zeroEndBand"
    unfolding skipped_def d by (simp add: zeroEndBand_def TRAFFIC_RADIUS_def)
  have e: "bandExhaust 1.3 103.8 c zeroEndBand = 1"
    unfolding bandExhaust_def d
    by (simp add: bandFrc_def bandCongestion_def roadVolumeBaseline_def
        congestionEmissionMultiplier_def zeroEndBand_def)
  from ns e show ?thesis by (intro conjI)
qed

text \<open>
  C3. With invalid meaning a zero start or end coordinate, the modifier is not 0 on every
  list of invalid bands: at the point (1.3, 103.8), the list of a band whose start latitude
  is zero and a band whose end latitude and end longitude are zero gives 3.5. The loop
  skips the first band and counts the second, whose start is the point itself. The range
  \<open>[0, 4]\<close>, the value 0 on the empty list and the strict radius of 400 m are the lemma
  on the range above.
\<close>

theorem trafficModifier_all_invalid_counted:
  "startLat (sampleBand 0 103.8 (Some 0) (Some 1)) = 0 \<and>
   endLat zeroEndBand = 0 \<and> endLng zeroEndBand = 0 \<and>
   trafficModifier 1.3 103.8 [sampleBand 0 103.8 (Some 0) (Some 1), zeroEndBand] = 3.5 \<and>
   trafficModifier 1.3 103.8 [sampleBand 0 103.8 (Some 0) (Some 1), zeroEndBand] \<noteq> 0"
proof -
  let ?c = "cos (1.3 * pi / 180)"
  let ?b0 = "sampleBand 0 103.8 (Some 0) (Some 1)"
  have z0: "startLat ?b0 = 0" by (simp add: sampleBand_sel)
  have s0: "skipped 1.3 103.8 ?c ?b0" unfolding skipped_def using z0 by simp
  have ns: "\<not> skipped 1.3 103.8 ?c zeroEndBand"
    and e: "bandExhaust 1.3 103.8 ?c zeroEndBand = 1"
    using zeroEndBand_counted [of ?c] by simp_all
  have "trafficStep 1.3 103.8 ?c 0 ?b0 = 0" using s0 by (rule trafficStep_skipped)
  moreover have "trafficStep 1.3 103.8 ?c 0 zeroEndBand = 1"
    unfolding trafficStep_qualifying [OF ns] e by simp
  ultimately have w: "worstExhaustOf 1.3 103.8 ?c [?b0, zeroEndBand] = 1"
    unfolding worstExhaustOf_def by (simp only: foldl_Cons foldl_Nil)
  have m: "trafficModifier 1.3 103.8 [?b0, zeroEndBand] = 3.5"
    unfolding trafficModifier_eq w by (simp add: round1_def Math_round_def)
  have ze: "endLat zeroEndBand = 0" "endLng zeroEndBand = 0" by (simp_all add: zeroEndBand_def)
  have nz: "trafficModifier 1.3 103.8 [?b0, zeroEndBand] \<noteq> 0" unfolding m by simp
  from z0 ze m nz show ?thesis by (intro conjI)
qed

subsection \<open>Road class inferred from the road name\<close>

lemma prefix_iff_append: "prefix e s \<longleftrightarrow> (\<exists>post. s = e @ post)"
  by (auto simp: prefix_def)

lemma str_includes_iff: "str_includes s e \<longleftrightarrow> (\<exists>pre post. s = pre @ e @ post)"
proof (induction s)
  case Nil
  show ?case by auto
next
  case (Cons c cs)
  show ?case
  proof
    assume "str_includes (c # cs) e"
    then consider "prefix e (c # cs)" | "str_includes cs e" by auto
    then show "\<exists>pre post. c # cs = pre @ e @ post"
    proof cases
      case 1
      then obtain post where "c # cs = e @ post" by (auto simp: prefix_def)
      then have "c # cs = [] @ e @ post" by simp
      then show ?thesis by blast
    next
      case 2
      then obtain pre post where "cs = pre @ e @ post" using Cons.IH by blast
      then have "c # cs = (c # pre) @ e @ post" by simp
      then show ?thesis by blast
    qed
  next
    assume "\<exists>pre post. c # cs = pre @ e @ post"
    then obtain pre post where p: "c # cs = pre @ e @ post" by blast
    show "str_includes (c # cs) e"
    proof (cases pre)
      case Nil
      then have "prefix e (c # cs)" using p by (simp add: prefix_def)
      then show ?thesis by simp
    next
      case (Cons a pre')
      then have "cs = pre' @ e @ post" using p by simp
      then have "str_includes cs e" using Cons.IH by blast
      then show ?thesis by simp
    qed
  qed
qed



lemma toUpperCase_append: "toUpperCase (xs @ ys) = toUpperCase xs @ toUpperCase ys"
  by (simp add: toUpperCase_def)

lemma str_includes_upper:
  assumes up: "toUpperCase e = e"
  shows "str_includes (toUpperCase nm) e \<longleftrightarrow> containsCI nm e"
proof
  assume "str_includes (toUpperCase nm) e"
  then obtain pre post where "toUpperCase nm = pre @ e @ post"
    unfolding str_includes_iff by blast
  then have "map upperChar nm = pre @ (e @ post)" by (simp only: toUpperCase_def)
  then obtain us vs where u: "nm = us @ vs" "e @ post = map upperChar vs"
    by (auto simp only: map_eq_append_conv)
  from u(2) obtain mid ws where v: "vs = mid @ ws" "e = map upperChar mid"
    by (auto simp only: append_eq_map_conv)
  have "nm = us @ mid @ ws" using u(1) v(1) by simp
  moreover have "toUpperCase mid = toUpperCase e"
    using v(2) up by (simp only: toUpperCase_def)
  ultimately show "containsCI nm e" unfolding containsCI_def by blast
next
  assume "containsCI nm e"
  then obtain pre mid post where p: "nm = pre @ mid @ post" "toUpperCase mid = toUpperCase e"
    unfolding containsCI_def by blast
  have "toUpperCase nm = toUpperCase pre @ toUpperCase mid @ toUpperCase post"
    unfolding p(1) by (simp only: toUpperCase_append)
  also have "\<dots> = toUpperCase pre @ e @ toUpperCase post"
    by (simp only: p(2) up)
  finally show "str_includes (toUpperCase nm) e" unfolding str_includes_iff by blast
qed

lemma EXPRESSWAYS_upper: "\<forall>e\<in>set EXPRESSWAYS. toUpperCase e = e"
  by code_simp

lemma words_upper: "toUpperCase ''EXPRESSWAY'' = ''EXPRESSWAY''" "toUpperCase ''HIGHWAY'' = ''HIGHWAY''"
  by code_simp+

text \<open>
  C5, as the code has it. For a band without \<open>frc\<close> the road class is 3 when the
  road name is empty, 0 when the name contains, up to letter case, one of the expressway codes
  or one of the words EXPRESSWAY and HIGHWAY, and 2 for every other name.
\<close>

theorem bandFrc_inferred:
  assumes "frc b = None"
  shows "bandFrc b =
    (if roadName b = [] then 3 else if namesExpressway (roadName b) then 0 else 2)"
proof -
  let ?nm = "roadName b"
  have codes: "list_ex (\<lambda>e. str_includes (toUpperCase ?nm) e) EXPRESSWAYS \<longleftrightarrow>
      (\<exists>e\<in>set EXPRESSWAYS. containsCI ?nm e)"
    unfolding list_ex_iff using EXPRESSWAYS_upper by (auto simp: str_includes_upper)
  have "inferFrcFromRoadName ?nm =
      (if ?nm = [] then 3 else if namesExpressway ?nm then 0 else 2)"
    unfolding inferFrcFromRoadName_def namesExpressway_def Let_def codes
    by (simp add: str_includes_upper words_upper)
  then show ?thesis using assms by (simp add: bandFrc_def)
qed

text \<open>For an empty name the guard \<open>if (!name) return 3\<close> gives 3, not 2.\<close>

theorem bandFrc_empty_name_counterexample:
  "frc (namedBand []) = None \<and> roadName (namedBand []) = [] \<and>
   bandFrc (namedBand []) = 3 \<and> bandFrc (namedBand []) \<noteq> 2"
  by (simp add: namedBand_def bandFrc_def inferFrcFromRoadName_def)

lemma inferFrc_pie_road: "inferFrcFromRoadName ''pie road'' = 0"
  by code_simp

theorem bandFrc_inferred_witness:
  "frc (namedBand ''pie road'') = None \<and> bandFrc (namedBand ''pie road'') = 0 \<and>
   namesExpressway ''pie road''"
proof -
  have f: "frc (namedBand ''pie road'') = None" by (simp add: namedBand_def)
  have r: "roadName (namedBand ''pie road'') = ''pie road''" by (simp add: namedBand_def)
  have v: "bandFrc (namedBand ''pie road'') = 0" by (simp add: bandFrc_def f r inferFrc_pie_road)
  from bandFrc_inferred [OF f] have "namesExpressway ''pie road''"
    unfolding v r by (simp split: if_splits)
  with f v show ?thesis by (intro conjI)
qed

subsection \<open>Grid lookup\<close>

lemma nearestLoop_Some:
  "\<exists>r. nearestLoop la lo (Some c0) (Some (l1dist la lo c0)) cs = Some r \<and>
       r \<in> insert c0 (set (scanned la lo cs)) \<and>
       (\<forall>c'\<in>insert c0 (set (scanned la lo cs)). l1dist la lo r \<le> l1dist la lo c')"
proof (induction cs arbitrary: c0)
  case Nil
  show ?case by simp
next
  case (Cons c cs)
  show ?case
  proof (cases "l1dist la lo c < l1dist la lo c0")
    case True
    note lt = True
    show ?thesis
    proof (cases "l1dist la lo c < 0.00001")
      case True
      then show ?thesis using lt by (simp add: belowInf_def l1dist_def Let_def)
    next
      case False
      from Cons.IH [of c] obtain r where
        r: "nearestLoop la lo (Some c) (Some (l1dist la lo c)) cs = Some r"
           "r \<in> insert c (set (scanned la lo cs))"
           "\<forall>c'\<in>insert c (set (scanned la lo cs)). l1dist la lo r \<le> l1dist la lo c'"
        by blast
      have "nearestLoop la lo (Some c0) (Some (l1dist la lo c0)) (c # cs) = Some r"
        using lt False r(1) by (simp add: belowInf_def l1dist_def Let_def)
      moreover have "l1dist la lo r \<le> l1dist la lo c0" using r(3) lt by force
      ultimately show ?thesis using r(2,3) False by auto
    qed
  next
    case False
    note ge = False
    show ?thesis
    proof (cases "l1dist la lo c < 0.00001")
      case True
      then show ?thesis using ge by (simp add: belowInf_def l1dist_def Let_def)
    next
      case False
      from Cons.IH [of c0] obtain r where
        r: "nearestLoop la lo (Some c0) (Some (l1dist la lo c0)) cs = Some r"
           "r \<in> insert c0 (set (scanned la lo cs))"
           "\<forall>c'\<in>insert c0 (set (scanned la lo cs)). l1dist la lo r \<le> l1dist la lo c'"
        by blast
      have "nearestLoop la lo (Some c0) (Some (l1dist la lo c0)) (c # cs) = Some r"
        using ge False r(1) by (simp add: belowInf_def l1dist_def Let_def)
      moreover have "l1dist la lo r \<le> l1dist la lo c" using r(3) ge by force
      ultimately show ?thesis using r(2,3) False by auto
    qed
  qed
qed

lemma nearestLoop_start:
  "\<exists>r. nearestLoop la lo None None (c # cs) = Some r \<and>
       r \<in> set (scanned la lo (c # cs)) \<and>
       (\<forall>c'\<in>set (scanned la lo (c # cs)). l1dist la lo r \<le> l1dist la lo c')"
proof (cases "l1dist la lo c < 0.00001")
  case True
  then show ?thesis by (simp add: belowInf_def l1dist_def Let_def)
next
  case False
  from nearestLoop_Some [of la lo c cs] obtain r where
    r: "nearestLoop la lo (Some c) (Some (l1dist la lo c)) cs = Some r"
       "r \<in> insert c (set (scanned la lo cs))"
       "\<forall>c'\<in>insert c (set (scanned la lo cs)). l1dist la lo r \<le> l1dist la lo c'"
    by blast
  have "nearestLoop la lo None None (c # cs) = Some r"
    using False r(1) by (simp add: belowInf_def l1dist_def Let_def)
  then show ?thesis using r(2,3) False by auto
qed

lemma scanned_subset: "set (scanned la lo cs) \<subseteq> set cs"
  by (induction cs) auto

lemma scanned_hit:
  "x \<in> set cs \<Longrightarrow> l1dist la lo x < 0.00001 \<Longrightarrow>
   \<exists>y\<in>set (scanned la lo cs). l1dist la lo y < 0.00001"
  by (induction cs) auto

lemma scanned_all:
  "\<forall>c\<in>set cs. \<not> l1dist la lo c < 0.00001 \<Longrightarrow> scanned la lo cs = cs"
  by (induction cs) auto

text \<open>
  C7, as the code has it. \<open>findNearestCell\<close> returns null exactly when the grid is
  absent or has no cell. Otherwise it returns a cell of the grid whose L1 distance is minimal among
  the cells scanned, the scan ending at the first cell within 0.00001; so the cell is within
  0.00001 of the point, or its distance is minimal over all cells.
\<close>

theorem findNearestCell_scan:
  "(findNearestCell la lo grid = None \<longleftrightarrow> (case grid of None \<Rightarrow> True | Some g \<Rightarrow> cells g = [])) \<and>
   (grid = Some g \<and> cells g \<noteq> [] \<longrightarrow>
      (\<exists>r. findNearestCell la lo grid = Some r \<and> r \<in> set (cells g) \<and>
           r \<in> set (scanned la lo (cells g)) \<and>
           (\<forall>c\<in>set (scanned la lo (cells g)). l1dist la lo r \<le> l1dist la lo c) \<and>
           (l1dist la lo r < 0.00001 \<or> (\<forall>c\<in>set (cells g). l1dist la lo r \<le> l1dist la lo c))))"
proof (intro conjI impI)
  show "findNearestCell la lo grid = None \<longleftrightarrow> (case grid of None \<Rightarrow> True | Some g \<Rightarrow> cells g = [])"
  proof (cases grid)
    case None
    then show ?thesis by (simp add: findNearestCell_def)
  next
    case (Some g')
    show ?thesis
    proof (cases "cells g'")
      case Nil
      then show ?thesis using Some by (simp add: findNearestCell_def)
    next
      case (Cons c cs)
      from nearestLoop_start [of la lo c cs] show ?thesis
        using Some Cons by (auto simp: findNearestCell_def)
    qed
  qed
next
  assume h: "grid = Some g \<and> cells g \<noteq> []"
  then obtain c cs where cs: "cells g = c # cs" by (cases "cells g") auto
  from nearestLoop_start [of la lo c cs] obtain r where
    r: "nearestLoop la lo None None (c # cs) = Some r"
       "r \<in> set (scanned la lo (c # cs))"
       "\<forall>c'\<in>set (scanned la lo (c # cs)). l1dist la lo r \<le> l1dist la lo c'"
    by blast
  have f: "findNearestCell la lo grid = Some r"
    using h cs r(1) by (simp add: findNearestCell_def)
  have m: "r \<in> set (cells g)" using r(2) scanned_subset [of la lo "c # cs"] cs by auto
  have alt: "l1dist la lo r < 0.00001 \<or> (\<forall>c\<in>set (cells g). l1dist la lo r \<le> l1dist la lo c)"
  proof (cases "\<forall>x\<in>set (cells g). \<not> l1dist la lo x < 0.00001")
    case True
    then have "scanned la lo (cells g) = cells g" by (rule scanned_all)
    then show ?thesis using r(3) cs by simp
  next
    case False
    then obtain x where x: "x \<in> set (cells g)" "l1dist la lo x < 0.00001" by blast
    have "\<exists>y\<in>set (scanned la lo (cells g)). l1dist la lo y < 0.00001"
      using x by (rule scanned_hit)
    then show ?thesis using r(3) cs by force
  qed
  show "\<exists>r. findNearestCell la lo grid = Some r \<and> r \<in> set (cells g) \<and>
           r \<in> set (scanned la lo (cells g)) \<and>
           (\<forall>c\<in>set (scanned la lo (cells g)). l1dist la lo r \<le> l1dist la lo c) \<and>
           (l1dist la lo r < 0.00001 \<or> (\<forall>c\<in>set (cells g). l1dist la lo r \<le> l1dist la lo c))"
    using f m r(2,3) alt cs by auto
qed

lemma cellAt_sel: "lat (cellAt la lo b) = la" "lng (cellAt la lo b) = lo" "base (cellAt la lo b) = b"
  by (simp_all add: cellAt_def)

lemma cells_gridOf: "cells (gridOf cs) = cs"
  by (simp add: gridOf_def)

text \<open>
  The early exit returns a cell that is not minimal over all cells: the first cell is
  0.000005 away, the second one is at the query point.
\<close>

theorem findNearestCell_early_exit_counterexample:
  "findNearestCell 1.3 103.8 (Some (gridOf [cellAt 1.300005 103.8 2, cellAt 1.3 103.8 4]))
     = Some (cellAt 1.300005 103.8 2) \<and>
   cellAt 1.3 103.8 4 \<in> set (cells (gridOf [cellAt 1.300005 103.8 2, cellAt 1.3 103.8 4])) \<and>
   \<bar>lat (cellAt 1.3 103.8 4) - 1.3\<bar> + \<bar>lng (cellAt 1.3 103.8 4) - 103.8\<bar>
     < \<bar>lat (cellAt 1.300005 103.8 2) - 1.3\<bar> + \<bar>lng (cellAt 1.300005 103.8 2) - 103.8\<bar>"
  by (simp add: findNearestCell_def cells_gridOf cellAt_sel belowInf_def Let_def)

theorem findNearestCell_scan_witness:
  "Some (gridOf [cellAt 1.3 103.8 2, cellAt 1.31 103.8 4]) =
     Some (gridOf [cellAt 1.3 103.8 2, cellAt 1.31 103.8 4]) \<and>
   cells (gridOf [cellAt 1.3 103.8 2, cellAt 1.31 103.8 4]) \<noteq> [] \<and>
   findNearestCell 1.3001 103.8 (Some (gridOf [cellAt 1.3 103.8 2, cellAt 1.31 103.8 4]))
     = Some (cellAt 1.3 103.8 2) \<and>
   l1dist 1.3001 103.8 (cellAt 1.3 103.8 2) \<le> l1dist 1.3001 103.8 (cellAt 1.31 103.8 4) \<and>
   findNearestCell 1.3001 103.8 None = None"
proof -
  let ?g = "gridOf [cellAt 1.3 103.8 2, cellAt 1.31 103.8 4]"
  have ne: "cells ?g \<noteq> []" by (simp add: cells_gridOf)
  have ev: "findNearestCell 1.3001 103.8 (Some ?g) = Some (cellAt 1.3 103.8 2)"
    by (simp add: findNearestCell_def cells_gridOf cellAt_sel belowInf_def Let_def)
  have far: "\<not> l1dist 1.3001 103.8 (cellAt 1.3 103.8 2) < 0.00001"
    by (simp add: l1dist_def cellAt_sel)
  note fnc = findNearestCell_scan [of "1.3001" "103.8" "Some ?g" ?g]
  from fnc ne obtain r where
    r: "findNearestCell 1.3001 103.8 (Some ?g) = Some r"
       "l1dist 1.3001 103.8 r < 0.00001 \<or>
        (\<forall>c\<in>set (cells ?g). l1dist 1.3001 103.8 r \<le> l1dist 1.3001 103.8 c)"
    by blast
  from r(1) ev have "r = cellAt 1.3 103.8 2" by simp
  with r(2) far have "\<forall>c\<in>set (cells ?g).
      l1dist 1.3001 103.8 (cellAt 1.3 103.8 2) \<le> l1dist 1.3001 103.8 c"
    by simp
  then have le: "l1dist 1.3001 103.8 (cellAt 1.3 103.8 2)
      \<le> l1dist 1.3001 103.8 (cellAt 1.31 103.8 4)"
    by (simp add: cells_gridOf)
  from fnc have n: "findNearestCell 1.3001 103.8 None = None"
    by (simp add: findNearestCell_def)
  from ne ev le n show ?thesis by (intro conjI refl)
qed

subsection \<open>Distances to segments and rings\<close>

lemma DEG_TO_M_pos: "0 < DEG_TO_M"
  by (simp add: DEG_TO_M_def)

lemma abs_le_sqrt_sum1: "\<bar>x\<bar> \<le> sqrt (x * x + y * y)"
proof -
  have "sqrt (x * x) \<le> sqrt (x * x + y * y)" by (rule real_sqrt_le_mono) simp
  then show ?thesis by simp
qed

lemma abs_le_sqrt_sum2: "\<bar>y\<bar> \<le> sqrt (x * x + y * y)"
proof -
  have "sqrt (y * y) \<le> sqrt (x * x + y * y)" by (rule real_sqrt_le_mono) simp
  then show ?thesis by simp
qed

lemma pointToSegmentDist_nonneg: "0 \<le> pointToSegmentDist px py ax ay bx by c"
  unfolding pointToSegmentDist_def Let_def by simp

text \<open>A convex combination of two numbers that are both at least m is at least m.\<close>

lemma convex_ge:
  fixes u v t m :: real
  assumes "m \<le> u" "m \<le> v" "0 \<le> t" "t \<le> 1"
  shows "m \<le> u - t * (u - v)"
proof -
  have "(1 - t) * m \<le> (1 - t) * u" using assms by (intro mult_left_mono) simp_all
  moreover have "t * m \<le> t * v" using assms by (intro mult_left_mono) simp_all
  ultimately have "(1 - t) * m + t * m \<le> (1 - t) * u + t * v" by (rule add_mono)
  then show ?thesis by (simp add: algebra_simps)
qed

lemma convex_abs_ge:
  fixes p a b t :: real
  assumes "0 \<le> t" "t \<le> 1"
  shows "axisSep p a b \<le> \<bar>(p - a) - t * (b - a)\<bar>"
proof (cases "min (p - a) (p - b) \<le> min (a - p) (b - p)")
  case True
  then have s: "axisSep p a b = min (a - p) (b - p)"
    unfolding axisSep_def by (rule max.absorb2)
  have "min (a - p) (b - p) \<le> (a - p) - t * ((a - p) - (b - p))"
    using assms by (intro convex_ge) simp_all
  also have "\<dots> = - ((p - a) - t * (b - a))" by (simp add: algebra_simps)
  also have "\<dots> \<le> \<bar>(p - a) - t * (b - a)\<bar>" by simp
  finally show ?thesis using s by simp
next
  case False
  then have "min (a - p) (b - p) \<le> min (p - a) (p - b)" by linarith
  then have s: "axisSep p a b = min (p - a) (p - b)"
    unfolding axisSep_def by (rule max.absorb1)
  have "min (p - a) (p - b) \<le> (p - a) - t * ((p - a) - (p - b))"
    using assms by (intro convex_ge) simp_all
  also have "\<dots> = (p - a) - t * (b - a)" by (simp add: algebra_simps)
  also have "\<dots> \<le> \<bar>(p - a) - t * (b - a)\<bar>" by simp
  finally show ?thesis using s by simp
qed

lemma pointToSegmentDist_ge_y:
  "DEG_TO_M * axisSep py ay by \<le> pointToSegmentDist px py ax ay bx by c"
proof -
  define dx where "dx = (bx - ax) * DEG_TO_M * c"
  define dy where "dy = (by - ay) * DEG_TO_M"
  define ex where "ex = (px - ax) * DEG_TO_M * c"
  define ey where "ey = (py - ay) * DEG_TO_M"
  define t where "t = (if dx * dx + dy * dy = 0 then 0
     else max 0 (min 1 ((ex * dx + ey * dy) / (dx * dx + dy * dy))))"
  have t01: "0 \<le> t" "t \<le> 1" by (simp_all add: t_def)
  have d: "pointToSegmentDist px py ax ay bx by c =
      sqrt ((ex - t * dx) * (ex - t * dx) + (ey - t * dy) * (ey - t * dy))"
    unfolding pointToSegmentDist_def Let_def t_def dx_def dy_def ex_def ey_def by simp
  have "DEG_TO_M * axisSep py ay by \<le> DEG_TO_M * \<bar>(py - ay) - t * (by - ay)\<bar>"
    using DEG_TO_M_pos convex_abs_ge [OF t01] by (intro mult_left_mono) simp_all
  also have "\<dots> = \<bar>ey - t * dy\<bar>"
  proof -
    have a: "ey - t * dy = DEG_TO_M * ((py - ay) - t * (by - ay))"
      by (simp add: ey_def dy_def algebra_simps)
    show ?thesis unfolding a abs_mult using DEG_TO_M_pos by simp
  qed
  also have "\<dots> \<le> pointToSegmentDist px py ax ay bx by c"
    unfolding d by (rule abs_le_sqrt_sum2)
  finally show ?thesis .
qed

lemma pointToSegmentDist_ge_x:
  assumes "0 \<le> c"
  shows "DEG_TO_M * c * axisSep px ax bx \<le> pointToSegmentDist px py ax ay bx by c"
proof -
  define dx where "dx = (bx - ax) * DEG_TO_M * c"
  define dy where "dy = (by - ay) * DEG_TO_M"
  define ex where "ex = (px - ax) * DEG_TO_M * c"
  define ey where "ey = (py - ay) * DEG_TO_M"
  define t where "t = (if dx * dx + dy * dy = 0 then 0
     else max 0 (min 1 ((ex * dx + ey * dy) / (dx * dx + dy * dy))))"
  have t01: "0 \<le> t" "t \<le> 1" by (simp_all add: t_def)
  have d: "pointToSegmentDist px py ax ay bx by c =
      sqrt ((ex - t * dx) * (ex - t * dx) + (ey - t * dy) * (ey - t * dy))"
    unfolding pointToSegmentDist_def Let_def t_def dx_def dy_def ex_def ey_def by simp
  have k: "0 \<le> DEG_TO_M * c" using DEG_TO_M_pos assms by simp
  have "DEG_TO_M * c * axisSep px ax bx \<le> (DEG_TO_M * c) * \<bar>(px - ax) - t * (bx - ax)\<bar>"
    using k convex_abs_ge [OF t01] by (intro mult_left_mono) simp_all
  also have "\<dots> = \<bar>ex - t * dx\<bar>"
  proof -
    have a: "ex - t * dx = DEG_TO_M * (c * ((px - ax) - t * (bx - ax)))"
      by (simp add: ex_def dx_def algebra_simps)
    show ?thesis unfolding a abs_mult using DEG_TO_M_pos assms by simp
  qed
  also have "\<dots> \<le> pointToSegmentDist px py ax ay bx by c"
    unfolding d by (rule abs_le_sqrt_sum1)
  finally show ?thesis .
qed

lemma axisSep_ge:
  "(m \<le> p - a \<and> m \<le> p - b) \<or> (m \<le> a - p \<and> m \<le> b - p) \<Longrightarrow> m \<le> axisSep p a b"
  unfolding axisSep_def by (auto simp: le_max_iff_disj)

lemma farLng_edgeDist:
  assumes "farLng L lo e"
  shows "L \<le> edgeDist la lo c e"
proof -
  obtain xi yi xj yj where e: "e = ((xi, yi), (xj, yj))" by (metis surj_pair)
  have "(L / DEG_TO_M \<le> lo - xi \<and> L / DEG_TO_M \<le> lo - xj) \<or>
        (L / DEG_TO_M \<le> xi - lo \<and> L / DEG_TO_M \<le> xj - lo)"
    using assms DEG_TO_M_pos unfolding farLng_def e
    by (simp add: pos_divide_le_eq mult.commute)
  then have "L / DEG_TO_M \<le> axisSep lo xi xj" by (rule axisSep_ge)
  then have "L \<le> DEG_TO_M * axisSep lo xi xj"
    using DEG_TO_M_pos by (simp add: pos_divide_le_eq mult.commute)
  also have "\<dots> \<le> pointToSegmentDist la lo yi xi yj xj c" by (rule pointToSegmentDist_ge_y)
  finally show ?thesis by (simp add: e edgeDist_def)
qed

lemma farLat_edgeDist:
  assumes "farLat L la e" and "1 / 2 \<le> c" and "0 \<le> L"
  shows "L \<le> edgeDist la lo c e"
proof -
  obtain xi yi xj yj where e: "e = ((xi, yi), (xj, yj))" by (metis surj_pair)
  have "(2 * L / DEG_TO_M \<le> la - yi \<and> 2 * L / DEG_TO_M \<le> la - yj) \<or>
        (2 * L / DEG_TO_M \<le> yi - la \<and> 2 * L / DEG_TO_M \<le> yj - la)"
    using assms(1) DEG_TO_M_pos unfolding farLat_def e
    by (simp add: pos_divide_le_eq mult.commute)
  then have s: "2 * L / DEG_TO_M \<le> axisSep la yi yj" by (rule axisSep_ge)
  have k: "0 \<le> 2 * L / DEG_TO_M" using assms(3) DEG_TO_M_pos by simp
  have "L = (DEG_TO_M * (1 / 2)) * (2 * L / DEG_TO_M)" using DEG_TO_M_pos by simp
  also have "\<dots> \<le> (DEG_TO_M * c) * (2 * L / DEG_TO_M)"
    using assms(2) k DEG_TO_M_pos by (intro mult_right_mono mult_left_mono) simp_all
  also have "\<dots> \<le> (DEG_TO_M * c) * axisSep la yi yj"
    using s assms(2) DEG_TO_M_pos by (intro mult_left_mono) simp_all
  also have "\<dots> \<le> pointToSegmentDist la lo yi xi yj xj c"
    using assms(2) by (intro pointToSegmentDist_ge_x) simp
  finally show ?thesis by (simp add: e edgeDist_def)
qed

lemma farEdge_edgeDist:
  "farEdge L la lo e \<Longrightarrow> 1 / 2 \<le> c \<Longrightarrow> 0 \<le> L \<Longrightarrow> L \<le> edgeDist la lo c e"
  unfolding farEdge_def using farLng_edgeDist farLat_edgeDist by blast

lemma cosLat_ge_half:
  assumes "0 \<le> la" "la \<le> 60"
  shows "1 / 2 \<le> cos (la * pi / 180)"
proof -
  have "cos (pi / 3) \<le> cos (la * pi / 180)"
    using assms by (intro cos_monotone_0_pi_le) simp_all
  then show ?thesis by (simp add: cos_60)
qed

lemma foldl_minDist_not_below:
  assumes "\<forall>e\<in>set es. L \<le> edgeDist la lo c e" and "\<not> infBelow m L"
  shows "\<not> infBelow (foldl (\<lambda>minDist e. let d = edgeDist la lo c e in
                          if belowInf d minDist then Some d else minDist) m es) L"
  using assms
proof (induction es arbitrary: m)
  case Nil
  then show ?case by simp
next
  case (Cons e es)
  let ?m' = "let d = edgeDist la lo c e in if belowInf d m then Some d else m"
  have "\<not> infBelow ?m' L" using Cons.prems by (simp add: infBelow_def Let_def)
  moreover have "\<forall>e\<in>set es. L \<le> edgeDist la lo c e" using Cons.prems by simp
  ultimately show ?case using Cons.IH [of ?m'] by simp
qed

lemma distToPolygonEdge_not_below:
  assumes "1 / 2 \<le> c" and "0 \<le> L" and "\<forall>e\<in>set (ringEdges r). farEdge L la lo e"
  shows "\<not> infBelow (distToPolygonEdge la lo r c) L"
proof -
  have "\<forall>e\<in>set (ringEdges r). L \<le> edgeDist la lo c e"
    using assms by (simp add: farEdge_edgeDist)
  then show ?thesis
    unfolding distToPolygonEdge_def
    by (rule foldl_minDist_not_below) (simp add: infBelow_def)
qed

lemma foldl_no_crossing:
  "\<forall>e\<in>set es. \<not> crossing la lo e \<Longrightarrow>
   foldl (\<lambda>inside e. if crossing la lo e then \<not> inside else inside) b es = b"
  by (induction es arbitrary: b) simp_all

lemma ringEdges_subset: "(p, q) \<in> set (ringEdges r) \<Longrightarrow> p \<in> set r \<and> q \<in> set r"
proof -
  assume a: "(p, q) \<in> set (ringEdges r)"
  then have ne: "r \<noteq> []" by (auto simp: ringEdges_def)
  from a have z: "(p, q) \<in> set (zip r (last r # butlast r))" using ne by (simp add: ringEdges_def)
  have "p \<in> set r" using z by (rule set_zip_leftD)
  moreover have "q \<in> set (last r # butlast r)" using z by (rule set_zip_rightD)
  then have "q \<in> set r" using ne by (auto dest: in_set_butlastD)
  ultimately show ?thesis by simp
qed

lemma pointInPolygon_all_above:
  assumes "\<forall>p\<in>set r. la < snd p"
  shows "\<not> pointInPolygon la lo r"
proof -
  have "\<forall>e\<in>set (ringEdges r). \<not> crossing la lo e"
  proof
    fix e assume e: "e \<in> set (ringEdges r)"
    obtain xi yi xj yj where s: "e = ((xi, yi), (xj, yj))" by (metis surj_pair)
    from e s have "(xi, yi) \<in> set r \<and> (xj, yj) \<in> set r" by (simp add: ringEdges_subset)
    then have "la < yi" "la < yj" using assms by auto
    then show "\<not> crossing la lo e" by (simp add: crossing_def s)
  qed
  then show ?thesis unfolding pointInPolygon_def by (simp add: foldl_no_crossing)
qed

lemma greenZoneLoop_none:
  "\<forall>z\<in>set zs. \<not> pointInPolygon la lo (ring z) \<and>
       \<not> infBelow (distToPolygonEdge la lo (ring z) c) GREEN_BUFFER_M \<Longrightarrow>
   greenZoneLoop la lo c zs = \<lparr>inPark = False, nearPark = False\<rparr>"
  by (induction zs) simp_all

lemma industrialLoop_none:
  "\<forall>z\<in>set zs. \<not> pointInPolygon la lo (ring z) \<and>
       \<not> infBelow (distToPolygonEdge la lo (ring z) c) INDUSTRIAL_BUFFER_M \<Longrightarrow>
   industrialLoop la lo c zs = \<lparr>addition = 0, multiplier = 1\<rparr>"
  by (induction zs) (auto simp: infBelow_def split: option.splits)

subsection \<open>The point (1.2836, 103.8607)\<close>

lemma green_rings_above:
  "la \<le> 90 \<Longrightarrow> \<forall>z\<in>set GREEN_ZONES. \<forall>p\<in>set (ring z). la < snd p"
  by (simp add: GREEN_ZONES_def)

lemma green_far_from_gardens_point:
  "\<forall>z\<in>set GREEN_ZONES. \<forall>e\<in>set (ringEdges (ring z)).
     farEdge GREEN_BUFFER_M 1.2836 103.8607 e"
  by (simp add: GREEN_ZONES_def ringEdges_def farEdge_def farLng_def farLat_def DEG_TO_M_def
      GREEN_BUFFER_M_def)

lemma industrial_far_from_gardens_point:
  "\<forall>z\<in>set INDUSTRIAL_ZONES. \<forall>e\<in>set (ringEdges (ring z)).
     farEdge INDUSTRIAL_BUFFER_M 1.2836 103.8607 e"
  by (simp add: INDUSTRIAL_ZONES_def ringEdges_def farEdge_def farLng_def farLat_def DEG_TO_M_def
      INDUSTRIAL_BUFFER_M_def)

lemma industrial_not_containing_gardens_point:
  "\<forall>z\<in>set INDUSTRIAL_ZONES. \<not> pointInPolygon 1.2836 103.8607 (ring z)"
  by (simp add: INDUSTRIAL_ZONES_def pointInPolygon_def ringEdges_def crossing_def)

lemma gardens_cos: "1 / 2 \<le> cos (1.2836 * pi / 180)"
  by (rule cosLat_ge_half) simp_all

lemma greenZoneCheck_gardens_point:
  "greenZoneCheck 1.2836 103.8607 (cos (1.2836 * pi / 180)) = \<lparr>inPark = False, nearPark = False\<rparr>"
  unfolding greenZoneCheck_def
proof (rule greenZoneLoop_none, intro ballI conjI)
  fix z assume z: "z \<in> set GREEN_ZONES"
  have "\<forall>p\<in>set (ring z). 1.2836 < snd p"
    using green_rings_above [of "1.2836"] z by simp
  then show "\<not> pointInPolygon 1.2836 103.8607 (ring z)" by (rule pointInPolygon_all_above)
  show "\<not> infBelow (distToPolygonEdge 1.2836 103.8607 (ring z) (cos (1.2836 * pi / 180)))
      GREEN_BUFFER_M"
    using gardens_cos green_far_from_gardens_point z
    by (intro distToPolygonEdge_not_below) (simp_all add: GREEN_BUFFER_M_def)
qed

lemma industrialModifier_gardens_point:
  "industrialModifier 1.2836 103.8607 (cos (1.2836 * pi / 180)) = \<lparr>addition = 0, multiplier = 1\<rparr>"
  unfolding industrialModifier_def
proof (rule industrialLoop_none, intro ballI conjI)
  fix z assume z: "z \<in> set INDUSTRIAL_ZONES"
  show "\<not> pointInPolygon 1.2836 103.8607 (ring z)"
    using industrial_not_containing_gardens_point z by blast
  show "\<not> infBelow (distToPolygonEdge 1.2836 103.8607 (ring z) (cos (1.2836 * pi / 180)))
      INDUSTRIAL_BUFFER_M"
    using gardens_cos industrial_far_from_gardens_point z
    by (intro distToPolygonEdge_not_below) (simp_all add: INDUSTRIAL_BUFFER_M_def)
qed

lemma round1_three: "round1 3 = 3"
  by (simp add: round1_def Math_round_def)

lemma trafficModifier_Nil: "trafficModifier la lo [] = 0"
  by (simp add: trafficModifier_def)

text \<open>What \<open>computeScore\<close> returns at (1.2836, 103.8607) without conditions, grid and bands.\<close>

lemma computeScore_gardens_point_value:
  "computeScore ck 1.2836 103.8607 None None (Some h) (Some []) =
     \<lparr>score = max 1 (min 10 (round1 (3 + timeModifier h))),
      band = fst (snd (getBand (max 1 (min 10 (round1 (3 + timeModifier h)))))),
      label = fst (snd (snd (getBand (max 1 (min 10 (round1 (3 + timeModifier h))))))),
      color = snd (snd (snd (getBand (max 1 (min 10 (round1 (3 + timeModifier h))))))),
      trafficMod = 0, isIndustrial = False, isGreenZone = False, isNearGreenZone = False,
      breakdown =
        \<lparr>bd_staticBase = 3, bd_pm25Modifier = 0, bd_windModifier = 0,
         bd_timeModifier = round1 (timeModifier h), bd_rainModifier = 0,
         bd_trafficModifier = 0\<rparr>,
      recommendation = []\<rparr>"
  unfolding computeScore_def Let_def greenZoneCheck_gardens_point industrialModifier_gardens_point
  by (simp add: gridBase_def baseTrafMod_def trafficModifier_Nil round1_zero round1_three)

text \<open>
  C1, as the code has it. At the point (1.2836, 103.8607), without conditions, grid
  and bands and with an explicit hour \<open>h\<close>, \<open>computeScore\<close> returns
  \<open>isGreenZone = false\<close>, and the final score is the clamped, rounded sum of the
  effective \<open>staticBase\<close> it reports and \<open>timeModifier h\<close>.
\<close>

theorem computeScore_gardens_point:
  "isGreenZone (computeScore ck 1.2836 103.8607 None None (Some h) (Some [])) = False \<and>
   score (computeScore ck 1.2836 103.8607 None None (Some h) (Some [])) =
     max 1 (min 10 (round1
       (bd_staticBase (breakdown (computeScore ck 1.2836 103.8607 None None (Some h) (Some [])))
        + timeModifier h)))"
  unfolding computeScore_gardens_point_value by simp

lemma timeModifier_noon: "timeModifier 12 = 0.3"
  by (simp add: timeModifier_def)

text \<open>At hour 12 the score is 3.3, from the base 3.0; a base of 1.2 would give 1.5.\<close>

theorem computeScore_gardens_point_counterexample:
  "isGreenZone (computeScore 0 1.2836 103.8607 None None (Some 12) (Some [])) = False \<and>
   bd_staticBase (breakdown (computeScore 0 1.2836 103.8607 None None (Some 12) (Some []))) = 3 \<and>
   score (computeScore 0 1.2836 103.8607 None None (Some 12) (Some [])) = 3.3 \<and>
   max 1 (min 10 (round1 (1.2 + timeModifier 12))) = 1.5 \<and>
   score (computeScore 0 1.2836 103.8607 None None (Some 12) (Some [])) \<noteq>
     max 1 (min 10 (round1 (1.2 + timeModifier 12)))"
  unfolding computeScore_gardens_point_value timeModifier_noon
  by (simp add: round1_def Math_round_def)

text \<open>
  Read as (latitude, longitude) pairs, the ring of Gardens by the Bay spans the longitudes
  103.861 to 103.870: the point (1.2836, 103.8607) is west of it.
\<close>

lemma gardens_point_outside_ring:
  "ring (GREEN_ZONES ! 1) = [(1.278, 103.861), (1.278, 103.870), (1.284, 103.870), (1.284, 103.861)] \<and>
   \<not> pointInPolygon 1.2836 103.8607 (map prod.swap (ring (GREEN_ZONES ! 1)))"
  by (simp add: GREEN_ZONES_def pointInPolygon_def ringEdges_def crossing_def)

text \<open>
  The rings of the green zones are written as (latitude, longitude) pairs, and
  \<open>pointInPolygon\<close> compares the second component with the latitude of the point: no
  point of latitude at most 90 is inside a green zone.
\<close>

lemma greenZone_never_inside:
  assumes "la \<le> 90"
  shows "\<not> inPark (greenZoneCheck la lo c)"
proof -
  have n: "\<forall>z\<in>set GREEN_ZONES. \<not> pointInPolygon la lo (ring z)"
    using green_rings_above [OF assms] by (simp add: pointInPolygon_all_above)
  have "\<forall>z\<in>set zs. \<not> pointInPolygon la lo (ring z) \<Longrightarrow> \<not> inPark (greenZoneLoop la lo c zs)"
    for zs by (induction zs) simp_all
  then show ?thesis unfolding greenZoneCheck_def using n by blast
qed

subsection \<open>Industrial zones and the reported traffic modifier\<close>

lemma industrialLoop_skip:
  "\<forall>z\<in>set pre. \<not> zoneMatches la lo c z \<Longrightarrow>
   industrialLoop la lo c (pre @ zs) = industrialLoop la lo c zs"
  by (induction pre) (auto simp: zoneMatches_def infBelow_def split: option.splits)

lemma industrialLoop_no_match:
  "\<forall>z\<in>set zs. \<not> zoneMatches la lo c z \<Longrightarrow>
   industrialLoop la lo c zs = \<lparr>addition = 0, multiplier = 1\<rparr>"
  using industrialLoop_skip [of zs la lo c "[]"] by simp

lemma trafficMod_computeScore:
  "trafficMod (computeScore ck la lo cond g h sb) =
     round1 (min 4.5
       (baseTrafMod la lo sb * multiplier (industrialModifier la lo (cos (la * pi / 180)))
        + addition (industrialModifier la lo (cos (la * pi / 180)))))"
  unfolding computeScore_def Let_def by simp

text \<open>
  C6, as the code has it. \<open>industrialModifier\<close> applies the first matching zone
  in iteration order only: addition 1.2 and multiplier 1.8 when the point is inside that zone,
  \<open>0.8 * factor\<close> and \<open>1 + 0.6 * factor\<close> with \<open>factor = 1 - distance / 300\<close>
  when it is within the 300 m buffer, and addition 0, multiplier 1 when no zone matches.
  The traffic modifier \<open>computeScore\<close> reports is
  \<open>min(4.5, baseTrafMod * multiplier + addition)\<close> rounded to one decimal.
\<close>

theorem industrialModifier_first_match:
  "((\<forall>z\<in>set INDUSTRIAL_ZONES. \<not> zoneMatches la lo c z) \<longrightarrow>
      industrialModifier la lo c = \<lparr>addition = 0, multiplier = 1\<rparr>) \<and>
   (INDUSTRIAL_ZONES = pre @ z # post \<and> (\<forall>z'\<in>set pre. \<not> zoneMatches la lo c z') \<and>
    pointInPolygon la lo (ring z) \<longrightarrow>
      industrialModifier la lo c = \<lparr>addition = 1.2, multiplier = 1.8\<rparr>) \<and>
   (INDUSTRIAL_ZONES = pre @ z # post \<and> (\<forall>z'\<in>set pre. \<not> zoneMatches la lo c z') \<and>
    \<not> pointInPolygon la lo (ring z) \<and> distToPolygonEdge la lo (ring z) c = Some d \<and> d < 300 \<longrightarrow>
      industrialModifier la lo c =
        \<lparr>addition = 0.8 * (1 - d / 300), multiplier = 1 + 0.6 * (1 - d / 300)\<rparr>) \<and>
   trafficMod (computeScore ck la lo cond g h sb) =
     round1 (min 4.5
       (baseTrafMod la lo sb * multiplier (industrialModifier la lo (cos (la * pi / 180)))
        + addition (industrialModifier la lo (cos (la * pi / 180)))))"
proof (intro conjI impI)
  assume "\<forall>z\<in>set INDUSTRIAL_ZONES. \<not> zoneMatches la lo c z"
  then show "industrialModifier la lo c = \<lparr>addition = 0, multiplier = 1\<rparr>"
    unfolding industrialModifier_def by (rule industrialLoop_no_match)
next
  assume h: "INDUSTRIAL_ZONES = pre @ z # post \<and> (\<forall>z'\<in>set pre. \<not> zoneMatches la lo c z') \<and>
    pointInPolygon la lo (ring z)"
  then have zs: "INDUSTRIAL_ZONES = pre @ z # post"
    and pre: "\<forall>z'\<in>set pre. \<not> zoneMatches la lo c z'"
    and inside: "pointInPolygon la lo (ring z)" by simp_all
  have "industrialModifier la lo c = industrialLoop la lo c (z # post)"
    unfolding industrialModifier_def zs by (rule industrialLoop_skip [OF pre])
  also have "\<dots> = \<lparr>addition = 1.2, multiplier = 1.8\<rparr>" using inside by simp
  finally show "industrialModifier la lo c = \<lparr>addition = 1.2, multiplier = 1.8\<rparr>" .
next
  assume h: "INDUSTRIAL_ZONES = pre @ z # post \<and> (\<forall>z'\<in>set pre. \<not> zoneMatches la lo c z') \<and>
    \<not> pointInPolygon la lo (ring z) \<and> distToPolygonEdge la lo (ring z) c = Some d \<and> d < 300"
  then have zs: "INDUSTRIAL_ZONES = pre @ z # post"
    and pre: "\<forall>z'\<in>set pre. \<not> zoneMatches la lo c z'"
    and outside: "\<not> pointInPolygon la lo (ring z)"
    and d: "distToPolygonEdge la lo (ring z) c = Some d" "d < 300" by simp_all
  have "industrialModifier la lo c = industrialLoop la lo c (z # post)"
    unfolding industrialModifier_def zs by (rule industrialLoop_skip [OF pre])
  also have "\<dots> = \<lparr>addition = 0.8 * (1 - d / 300), multiplier = 1 + 0.6 * (1 - d / 300)\<rparr>"
    using outside d by (simp add: INDUSTRIAL_BUFFER_M_def)
  finally show "industrialModifier la lo c =
      \<lparr>addition = 0.8 * (1 - d / 300), multiplier = 1 + 0.6 * (1 - d / 300)\<rparr>" .
next
  show "trafficMod (computeScore ck la lo cond g h sb) =
     round1 (min 4.5
       (baseTrafMod la lo sb * multiplier (industrialModifier la lo (cos (la * pi / 180)))
        + addition (industrialModifier la lo (cos (la * pi / 180)))))"
    by (rule trafficMod_computeScore)
qed

text \<open>
  A segment of constant longitude and a point whose latitude lies between the latitudes of
  its ends: the distance is the longitude difference in metres, whatever \<open>cosLat\<close> is.
\<close>

lemma pointToSegmentDist_perp:
  assumes "ax \<le> px" "px \<le> bx" "ax < bx"
  shows "pointToSegmentDist px py ax ay bx ay c = \<bar>py - ay\<bar> * DEG_TO_M"
proof (cases "c = 0")
  case True
  then show ?thesis
    unfolding pointToSegmentDist_def Let_def using DEG_TO_M_pos by (simp add: abs_mult)
next
  case False
  define dx where "dx = (bx - ax) * DEG_TO_M * c"
  define ex where "ex = (px - ax) * DEG_TO_M * c"
  define ey where "ey = (py - ay) * DEG_TO_M"
  have dx0: "dx \<noteq> 0" using assms(3) False DEG_TO_M_pos by (simp add: dx_def)
  have q: "ex / dx = (px - ax) / (bx - ax)"
    using False DEG_TO_M_pos by (simp add: ex_def dx_def)
  have q0: "0 \<le> ex / dx" unfolding q using assms by simp
  have q1: "ex / dx \<le> 1" unfolding q using assms by simp
  have t: "max 0 (min 1 (ex * dx / (dx * dx))) = ex / dx"
    using dx0 q0 q1 by simp
  have "pointToSegmentDist px py ax ay bx ay c =
      sqrt ((ex - max 0 (min 1 (ex * dx / (dx * dx))) * dx) *
            (ex - max 0 (min 1 (ex * dx / (dx * dx))) * dx) + ey * ey)"
    unfolding pointToSegmentDist_def Let_def using dx0
    by (simp add: dx_def ex_def ey_def)
  also have "\<dots> = sqrt (ey * ey)" unfolding t using dx0 by simp
  also have "\<dots> = \<bar>py - ay\<bar> * DEG_TO_M"
    using DEG_TO_M_pos by (simp add: ey_def abs_mult)
  finally show ?thesis .
qed

lemma foldl_minDist_first:
  assumes "\<forall>e\<in>set es. m \<le> edgeDist la lo c e"
  shows "foldl (\<lambda>minDist e. let d = edgeDist la lo c e in
                 if belowInf d minDist then Some d else minDist) (Some m) es = Some m"
  using assms by (induction es) (simp_all add: belowInf_def Let_def)

lemma INDUSTRIAL_ZONES_first:
  "INDUSTRIAL_ZONES = [] @ hd INDUSTRIAL_ZONES # tl INDUSTRIAL_ZONES"
  by (simp add: INDUSTRIAL_ZONES_def)

lemma jurong_ring:
  "ring (hd INDUSTRIAL_ZONES) =
     [(103.690, 1.308), (103.720, 1.306), (103.730, 1.312), (103.730, 1.335),
      (103.720, 1.340), (103.705, 1.342), (103.690, 1.335)]"
  by (simp add: INDUSTRIAL_ZONES_def)

lemma jurong_edges:
  "ringEdges (ring (hd INDUSTRIAL_ZONES)) =
     ((103.690, 1.308), (103.690, 1.335)) #
     [((103.720, 1.306), (103.690, 1.308)), ((103.730, 1.312), (103.720, 1.306)),
      ((103.730, 1.335), (103.730, 1.312)), ((103.720, 1.340), (103.730, 1.335)),
      ((103.705, 1.342), (103.720, 1.340)), ((103.690, 1.335), (103.705, 1.342))]"
  unfolding jurong_ring by (simp add: ringEdges_def)

lemma jurong_outside: "\<not> pointInPolygon 1.3215 103.689 (ring (hd INDUSTRIAL_ZONES))"
  unfolding pointInPolygon_def jurong_edges by (simp add: crossing_def)

lemma jurong_inside: "pointInPolygon 1.32 103.71 (ring (hd INDUSTRIAL_ZONES))"
  unfolding pointInPolygon_def jurong_edges by (simp add: crossing_def)

lemma distToPolygonEdge_first_edge:
  assumes "ringEdges r = e0 # rest"
    and "\<forall>e\<in>set rest. edgeDist la lo c e0 \<le> edgeDist la lo c e"
  shows "distToPolygonEdge la lo r c = Some (edgeDist la lo c e0)"
proof -
  let ?f = "\<lambda>minDist e. let d = edgeDist la lo c e in
              if belowInf d minDist then Some d else minDist"
  have "foldl ?f None (e0 # rest) = foldl ?f (Some (edgeDist la lo c e0)) rest"
    by (simp add: belowInf_def Let_def)
  also have "\<dots> = Some (edgeDist la lo c e0)"
    using assms(2) by (rule foldl_minDist_first)
  finally show ?thesis unfolding distToPolygonEdge_def assms(1) .
qed

lemma jurong_dist:
  "distToPolygonEdge 1.3215 103.689 (ring (hd INDUSTRIAL_ZONES)) c = Some 111.32"
proof -
  let ?rest = "[((103.720, 1.306), (103.690, 1.308)), ((103.730, 1.312), (103.720, 1.306)),
      ((103.730, 1.335), (103.730, 1.312)), ((103.720, 1.340), (103.730, 1.335)),
      ((103.705, 1.342), (103.720, 1.340)), ((103.690, 1.335), (103.705, 1.342))]
      :: ((real \<times> real) \<times> (real \<times> real)) list"
  have e0: "edgeDist 1.3215 103.689 c ((103.690, 1.308), (103.690, 1.335)) = 111.32"
    unfolding edgeDist_def prod.case
    by (subst pointToSegmentDist_perp) (simp_all add: DEG_TO_M_def)
  have "\<forall>e\<in>set ?rest. farLng 111.32 103.689 e"
    by (simp add: farLng_def DEG_TO_M_def)
  then have far: "\<forall>e\<in>set ?rest. 111.32 \<le> edgeDist 1.3215 103.689 c e"
    by (blast intro: farLng_edgeDist)
  have "distToPolygonEdge 1.3215 103.689 (ring (hd INDUSTRIAL_ZONES)) c =
      Some (edgeDist 1.3215 103.689 c ((103.690, 1.308), (103.690, 1.335)))"
    using jurong_edges far unfolding e0 [symmetric] by (rule distToPolygonEdge_first_edge)
  then show ?thesis unfolding e0 .
qed

lemma industrialModifier_jurong_buffer:
  "industrialModifier 1.3215 103.689 c =
     \<lparr>addition = 0.8 * (1 - 111.32 / 300), multiplier = 1 + 0.6 * (1 - 111.32 / 300)\<rparr>"
proof -
  have "industrialModifier 1.3215 103.689 c =
      industrialLoop 1.3215 103.689 c (hd INDUSTRIAL_ZONES # tl INDUSTRIAL_ZONES)"
    unfolding industrialModifier_def using INDUSTRIAL_ZONES_first by simp
  also have "\<dots> = \<lparr>addition = 0.8 * (1 - 111.32 / 300), multiplier = 1 + 0.6 * (1 - 111.32 / 300)\<rparr>"
    unfolding industrialLoop.simps jurong_dist using jurong_outside
    by (simp add: INDUSTRIAL_BUFFER_M_def)
  finally show ?thesis .
qed

text \<open>
  At (1.3215, 103.689), 111.32 m west of the first zone, the unrounded value is
  \<open>4717 / 9375 = 0.50314...\<close> and the reported one is 0.5.
\<close>

theorem trafficMod_rounded_counterexample:
  "trafficMod (computeScore 0 1.3215 103.689 None None (Some 12) (Some [])) = 0.5 \<and>
   min 4.5 (baseTrafMod 1.3215 103.689 (Some []) *
              multiplier (industrialModifier 1.3215 103.689 (cos (1.3215 * pi / 180)))
            + addition (industrialModifier 1.3215 103.689 (cos (1.3215 * pi / 180))))
     = 4717 / 9375 \<and>
   trafficMod (computeScore 0 1.3215 103.689 None None (Some 12) (Some [])) \<noteq>
   min 4.5 (baseTrafMod 1.3215 103.689 (Some []) *
              multiplier (industrialModifier 1.3215 103.689 (cos (1.3215 * pi / 180)))
            + addition (industrialModifier 1.3215 103.689 (cos (1.3215 * pi / 180))))"
  unfolding trafficMod_computeScore industrialModifier_jurong_buffer
  by (simp add: baseTrafMod_def trafficModifier_Nil round1_def Math_round_def)

lemma no_industrial_match_gardens_point:
  "\<forall>z\<in>set INDUSTRIAL_ZONES. \<not> zoneMatches 1.2836 103.8607 (cos (1.2836 * pi / 180)) z"
proof
  fix z assume z: "z \<in> set INDUSTRIAL_ZONES"
  have "\<not> pointInPolygon 1.2836 103.8607 (ring z)"
    using industrial_not_containing_gardens_point z by blast
  moreover have "\<not> infBelow (distToPolygonEdge 1.2836 103.8607 (ring z) (cos (1.2836 * pi / 180)))
      INDUSTRIAL_BUFFER_M"
    using gardens_cos industrial_far_from_gardens_point z
    by (intro distToPolygonEdge_not_below) (simp_all add: INDUSTRIAL_BUFFER_M_def)
  ultimately show "\<not> zoneMatches 1.2836 103.8607 (cos (1.2836 * pi / 180)) z"
    by (simp add: zoneMatches_def)
qed

theorem industrialModifier_first_match_witness:
  "industrialModifier 1.2836 103.8607 (cos (1.2836 * pi / 180)) = \<lparr>addition = 0, multiplier = 1\<rparr> \<and>
   INDUSTRIAL_ZONES = [] @ hd INDUSTRIAL_ZONES # tl INDUSTRIAL_ZONES \<and>
   pointInPolygon 1.32 103.71 (ring (hd INDUSTRIAL_ZONES)) \<and>
   industrialModifier 1.32 103.71 (cos (1.32 * pi / 180)) = \<lparr>addition = 1.2, multiplier = 1.8\<rparr> \<and>
   \<not> pointInPolygon 1.3215 103.689 (ring (hd INDUSTRIAL_ZONES)) \<and>
   distToPolygonEdge 1.3215 103.689 (ring (hd INDUSTRIAL_ZONES)) (cos (1.3215 * pi / 180))
     = Some 111.32 \<and>
   industrialModifier 1.3215 103.689 (cos (1.3215 * pi / 180)) =
     \<lparr>addition = 0.8 * (1 - 111.32 / 300), multiplier = 1 + 0.6 * (1 - 111.32 / 300)\<rparr>"
proof -
  have a: "industrialModifier 1.2836 103.8607 (cos (1.2836 * pi / 180)) =
      \<lparr>addition = 0, multiplier = 1\<rparr>"
    using industrialModifier_first_match [of "1.2836" "103.8607" "cos (1.2836 * pi / 180)"]
      no_industrial_match_gardens_point by blast
  have e: "\<forall>z'\<in>set ([] :: Zone list). \<not> zoneMatches la lo c z'" for la lo c by simp
  have b: "industrialModifier 1.32 103.71 (cos (1.32 * pi / 180)) =
      \<lparr>addition = 1.2, multiplier = 1.8\<rparr>"
    using industrialModifier_first_match [of "1.32" "103.71" "cos (1.32 * pi / 180)" "[]" "hd INDUSTRIAL_ZONES"
        "tl INDUSTRIAL_ZONES"]
      INDUSTRIAL_ZONES_first jurong_inside e by blast
  have lt: "(111.32 :: real) < 300" by simp
  have c: "industrialModifier 1.3215 103.689 (cos (1.3215 * pi / 180)) =
      \<lparr>addition = 0.8 * (1 - 111.32 / 300), multiplier = 1 + 0.6 * (1 - 111.32 / 300)\<rparr>"
    using industrialModifier_first_match [of "1.3215" "103.689" "cos (1.3215 * pi / 180)" "[]" "hd INDUSTRIAL_ZONES"
        "tl INDUSTRIAL_ZONES" "111.32"]
      INDUSTRIAL_ZONES_first jurong_outside jurong_dist [of "cos (1.3215 * pi / 180)"] e lt
    by blast
  from a INDUSTRIAL_ZONES_first jurong_inside b jurong_outside
    jurong_dist [of "cos (1.3215 * pi / 180)"] c
  show ?thesis by (intro conjI)
qed

subsection \<open>Scores and ratings\<close>

text \<open>The score of \<open>computeScore\<close>, with its local bindings unfolded.\<close>

lemma score_computeScore:
  "score (computeScore ck la lo c g h sb) =
     max 1 (min 10 (round1
       ((if inPark (greenZoneCheck la lo (cos (la * pi / 180))) then min (gridBase la lo g) 1.2
         else if nearPark (greenZoneCheck la lo (cos (la * pi / 180)))
           then min (gridBase la lo g) 2.0
         else gridBase la lo g)
        + (case c of Some c' \<Rightarrow> pm25Modifier (pm25_value (pm25 c')) | None \<Rightarrow> 0)
        + (case c of Some c' \<Rightarrow> windModifier (speed (wind c')) | None \<Rightarrow> 0)
        + timeModifier (case h of Some h' \<Rightarrow> h' | None \<Rightarrow> ck)
        + (case c of
             Some c' \<Rightarrow> rainModifier (isRaining (rainfall c')) (intensity (rainfall c'))
           | None \<Rightarrow> 0)
        + min 4.5
            (baseTrafMod la lo sb * multiplier (industrialModifier la lo (cos (la * pi / 180)))
             + addition (industrialModifier la lo (cos (la * pi / 180)))))))"
  unfolding computeScore_def Let_def by simp

lemma rateRoute_nonempty:
  "ps \<noteq> [] \<Longrightarrow> rateRoute ps g =
     \<lparr>overall = overallOf (trafficPctOf ps) (airPctOf ps) (greenPctOf ps g) (consistencyPctOf ps),
      trafficExposure = trafficPctOf ps, airQuality = airPctOf ps,
      greenCorridor = greenPctOf ps g, consistency = consistencyPctOf ps,
      summary = summaryOf
        (overallOf (trafficPctOf ps) (airPctOf ps) (greenPctOf ps g) (consistencyPctOf ps))
        (factorsOf ps g),
      factors = factorsOf ps g\<rparr>"
  unfolding rateRoute_def Let_def by simp

lemma trafficPct_range: "0 \<le> trafficPctOf ps \<and> trafficPctOf ps \<le> 100"
  unfolding trafficPctOf_def Let_def by (rule Math_round_clamp)

lemma airPct_range: "0 \<le> airPctOf ps \<and> airPctOf ps \<le> 100"
  unfolding airPctOf_def by (rule Math_round_clamp)

lemma consistencyPct_range: "0 \<le> consistencyPctOf ps \<and> consistencyPctOf ps \<le> 100"
  unfolding consistencyPctOf_def Let_def by (rule Math_round_clamp)

lemma greenPct_range: "0 \<le> greenPctOf ps g \<and> greenPctOf ps g \<le> 100"
  unfolding greenPctOf_def Let_def
  by (rule Math_round_range) (simp_all add: add_nonneg_nonneg)

lemma overallOf_range:
  assumes "0 \<le> t \<and> t \<le> 100" "0 \<le> a \<and> a \<le> 100" "0 \<le> g \<and> g \<le> 100" "0 \<le> c \<and> c \<le> 100"
  shows "0 \<le> overallOf t a g c \<and> overallOf t a g c \<le> 100"
  unfolding overallOf_def using assms by (intro Math_round_range) linarith+

text \<open>
  C8. The score of \<open>computeScore\<close> lies in \<open>[1, 10]\<close>; the overall rating of \<open>rateRoute\<close>
  and its four factor percentages, as fields and as the \<open>pct\<close> of every entry of
  \<open>factors\<close>, lie in \<open>[0, 100]\<close>.
\<close>

theorem computeScore_rateRoute_bounds:
  "1 \<le> score (computeScore ck la lo c g h sb) \<and> score (computeScore ck la lo c g h sb) \<le> 10 \<and>
   0 \<le> overall (rateRoute ps gr) \<and> overall (rateRoute ps gr) \<le> 100 \<and>
   0 \<le> trafficExposure (rateRoute ps gr) \<and> trafficExposure (rateRoute ps gr) \<le> 100 \<and>
   0 \<le> airQuality (rateRoute ps gr) \<and> airQuality (rateRoute ps gr) \<le> 100 \<and>
   0 \<le> greenCorridor (rateRoute ps gr) \<and> greenCorridor (rateRoute ps gr) \<le> 100 \<and>
   0 \<le> consistency (rateRoute ps gr) \<and> consistency (rateRoute ps gr) \<le> 100 \<and>
   list_all (\<lambda>f. 0 \<le> pct f \<and> pct f \<le> 100) (factors (rateRoute ps gr))"
proof -
  have sc: "1 \<le> score (computeScore ck la lo c g h sb) \<and>
      score (computeScore ck la lo c g h sb) \<le> 10"
    unfolding score_computeScore by simp
  have rr: "0 \<le> overall (rateRoute ps gr) \<and> overall (rateRoute ps gr) \<le> 100 \<and>
   0 \<le> trafficExposure (rateRoute ps gr) \<and> trafficExposure (rateRoute ps gr) \<le> 100 \<and>
   0 \<le> airQuality (rateRoute ps gr) \<and> airQuality (rateRoute ps gr) \<le> 100 \<and>
   0 \<le> greenCorridor (rateRoute ps gr) \<and> greenCorridor (rateRoute ps gr) \<le> 100 \<and>
   0 \<le> consistency (rateRoute ps gr) \<and> consistency (rateRoute ps gr) \<le> 100 \<and>
   list_all (\<lambda>f. 0 \<le> pct f \<and> pct f \<le> 100) (factors (rateRoute ps gr))"
  proof (cases "ps = []")
    case True
    then show ?thesis by (simp add: rateRoute_def neutralRating_def)
  next
    case False
    note t = trafficPct_range [of ps] and a = airPct_range [of ps]
      and g = greenPct_range [of ps gr] and c = consistencyPct_range [of ps]
    note ov = overallOf_range [OF t a g c]
    show ?thesis
      unfolding rateRoute_nonempty [OF False]
      using t a g c ov by (simp add: factorsOf_def Let_def)
  qed
  from sc rr show ?thesis by blast
qed

lemma pm25Modifier_mono: "p \<le> q \<Longrightarrow> pm25Modifier p \<le> pm25Modifier q"
  unfolding pm25Modifier_def by simp

text \<open>
  C9. With the point, the grid, the bands and the hour fixed, and two conditions that
  differ only in \<open>pm25.value\<close>, the score under the larger reading is at least the score
  under the smaller one.
\<close>

theorem computeScore_pm25_monotone:
  assumes "pm25_value (pm25 c) \<le> v"
  shows "score (computeScore ck la lo (Some c) g h sb)
       \<le> score (computeScore ck la lo (Some (c\<lparr>pm25 := (pm25 c)\<lparr>pm25_value := v\<rparr>\<rparr>)) g h sb)"
proof -
  have "pm25Modifier (pm25_value (pm25 c)) \<le> pm25Modifier v"
    using assms by (rule pm25Modifier_mono)
  then show ?thesis
    unfolding score_computeScore
    by (intro max.mono min.mono round1_mono order_refl add_mono) simp_all
qed

theorem computeScore_pm25_monotone_witness:
  "pm25_value (pm25 (sampleConditions 10)) \<le> 40 \<and>
   score (computeScore 0 1.3 103.8 (Some (sampleConditions 10)) None (Some 12) (Some []))
   \<le> score (computeScore 0 1.3 103.8
        (Some ((sampleConditions 10)\<lparr>pm25 := (pm25 (sampleConditions 10))\<lparr>pm25_value := 40\<rparr>\<rparr>))
        None (Some 12) (Some []))"
  using computeScore_pm25_monotone
    [of "sampleConditions 10" 40 0 "1.3" "103.8" None "Some 12" "Some []"]
  by (simp add: sampleConditions_def)

text \<open>
  C10. On the empty list of scored points \<open>rateRoute\<close> returns the fixed neutral rating.
\<close>

theorem rateRoute_empty:
  "rateRoute [] grid =
    \<lparr>overall = 50, trafficExposure = 50, airQuality = 50, greenCorridor = 50,
     consistency = 50, summary = ''No data'', factors = []\<rparr>"
  by (simp add: rateRoute_def neutralRating_def)

end
